theory Spec2Isabelle
  imports Main "HOL-Library.AList" "HOL-Library.List_Lexorder" "HOL-Library.Char_ord"
begin

section \<open>Python values, strings and errors\<close>

text \<open>
  The values the sysconfig renderer stores in its dictionaries are strings, booleans and
  integers. A string is a list of characters, a character being a code point below 256;
  strings are ordered as Python orders them, code point by code point with a proper
  prefix first (the order of \<open>List_Lexorder\<close> over \<open>Char_ord\<close>).
\<close>

datatype pyval = PStr string | PBool bool | PInt int

text \<open>
  The exceptions of \<open>net/sysconfig.py\<close>. \<open>KeyError\<close> and \<open>TypeError\<close> are Python's own;
  the other four are the \<open>ValueError\<close>s the module raises, told apart by their message:
  \<open>UnknownSubnetType\<close> carries the offending type and the interface name
  (``Unknown subnet type '%s' found for interface '%s'''), \<open>DuplicateDefaultRoute\<close> the
  interface name, \<open>UnknownProtocol\<close> the protocol and \<open>InvalidKind\<close> the rejected kind.
\<close>

datatype error =
    KeyError string
  | TypeError
  | UnknownSubnetType "string option" string
  | DuplicateDefaultRoute string
  | UnknownProtocol string
  | InvalidKind string

definition nl :: string where
  "nl = [CHR 0x0A]"

definition dquote :: string where
  "dquote = [CHR 0x22]"

text \<open>\<open>str(n)\<close> for an integer: decimal digits, with a minus sign when negative.\<close>

fun str_nat :: "nat \<Rightarrow> string" where
  "str_nat n = (if n < 10 then [''0123456789'' ! n]
                else str_nat (n div 10) @ [''0123456789'' ! (n mod 10)])"

declare str_nat.simps [simp del]

definition str_int :: "int \<Rightarrow> string" where
  "str_int i = (if i < 0 then CHR ''-'' # str_nat (nat (- i)) else str_nat (nat i))"

text \<open>\<open>str(value)\<close>: a string is itself, a boolean is \<open>True\<close>/\<open>False\<close>.\<close>

fun py_str :: "pyval \<Rightarrow> string" where
  "py_str (PStr s) = s"
| "py_str (PBool b) = (if b then ''True'' else ''False'')"
| "py_str (PInt i) = str_int i"

text \<open>Truth value of the result of \<open>d.get(key)\<close>: a missing key gives \<open>None\<close>, which is false.\<close>

fun truthy :: "pyval option \<Rightarrow> bool" where
  "truthy None = False"
| "truthy (Some (PStr s)) = (s \<noteq> [])"
| "truthy (Some (PBool b)) = b"
| "truthy (Some (PInt i)) = (i \<noteq> 0)"

text \<open>\<open>value == 0\<close>: Python's \<open>False\<close> equals \<open>0\<close>, a string never does.\<close>

fun eq_zero :: "pyval \<Rightarrow> bool" where
  "eq_zero (PInt i) = (i = 0)"
| "eq_zero (PBool b) = (\<not> b)"
| "eq_zero (PStr s) = False"

definition startswith :: "string \<Rightarrow> char \<Rightarrow> bool" where
  "startswith s c = (s \<noteq> [] \<and> hd s = c)"

definition endswith :: "string \<Rightarrow> char \<Rightarrow> bool" where
  "endswith s c = (s \<noteq> [] \<and> last s = c)"

text \<open>\<open>sep.join(xs)\<close>.\<close>

fun py_join :: "string \<Rightarrow> string list \<Rightarrow> string" where
  "py_join sep [] = []"
| "py_join sep [x] = x"
| "py_join sep (x # y # ys) = x @ sep @ py_join sep (y # ys)"

text \<open>\<open>pat in s\<close> for strings: \<open>pat\<close> occurs in \<open>s\<close> as a contiguous substring.\<close>

fun contains :: "string \<Rightarrow> string \<Rightarrow> bool" where
  "contains pat [] = (pat = [])"
| "contains pat (c # cs) = (take (length pat) (c # cs) = pat \<or> contains pat cs)"

text \<open>
  \<open>s.replace(old, '')\<close> for a non-empty \<open>old\<close>: the occurrences of \<open>old\<close> are removed,
  scanning from the left.
\<close>

function str_remove :: "string \<Rightarrow> string \<Rightarrow> string" where
  "str_remove old s =
     (if s = [] then []
      else if old \<noteq> [] \<and> take (length old) s = old
        then str_remove old (drop (length old) s)
      else hd s # str_remove old (tl s))"
  by pat_completeness auto
termination
  by (relation "measure (\<lambda>(old, s). length s)") auto

declare str_remove.simps [simp del]

section \<open>The module's helpers\<close>

text \<open>
  \<open>_make_header(sep)\<close>: the two header lines, the second one empty, each prefixed by the
  comment character.
\<close>

definition make_header :: "string \<Rightarrow> string" where
  "make_header sep =
     py_join nl
       (map (\<lambda>l. if l \<noteq> [] then sep @ '' '' @ l else sep)
          [''Created by cloud-init on instance boot automatically, do not edit.'', ''''])"

text \<open>
  \<open>re.search(r"\s", value)\<close> on a \<open>str\<close>: the class \<open>\s\<close> is Unicode whitespace. Among the
  code points below 256 these are \<open>[ \t\n\r\f\v]\<close>, the separators U+001C to U+001F, the
  next-line character U+0085 and the no-break space U+00A0.
\<close>

definition is_space :: "char \<Rightarrow> bool" where
  "is_space c =
     (c \<in> set [CHR 0x09, CHR 0x0A, CHR 0x0B, CHR 0x0C, CHR 0x0D,
                CHR 0x1C, CHR 0x1D, CHR 0x1E, CHR 0x1F, CHR 0x20, CHR 0x85, CHR 0xA0])"

definition quote_value :: "string \<Rightarrow> string" where
  "quote_value v =
     (if list_ex is_space v then
        (if startswith v (CHR 0x22) \<and> endswith v (CHR 0x22) then v
         else dquote @ v @ dquote)
      else v)"

section \<open>ConfigMap\<close>

text \<open>
  \<open>ConfigMap._conf\<close> is a Python dictionary. It is modelled as an association list in
  insertion order: \<open>d[k] = v\<close> replaces the value of an existing key in place and appends
  a new key at the end, which is \<open>AList.update\<close>; \<open>d.pop(k, None)\<close> is \<open>AList.delete\<close>.
\<close>

type_synonym conf = "(string \<times> pyval) list"

definition setitem :: "string \<Rightarrow> pyval \<Rightarrow> conf \<Rightarrow> conf" where
  "setitem k v c = AList.update k v c"

definition getitem :: "conf \<Rightarrow> string \<Rightarrow> error + pyval" where
  "getitem c k = (case map_of c k of None \<Rightarrow> Inl (KeyError k) | Some v \<Rightarrow> Inr v)"

definition drop_key :: "string \<Rightarrow> conf \<Rightarrow> conf" where
  "drop_key k c = AList.delete k c"

definition keys :: "conf \<Rightarrow> string list" where
  "keys c = map fst c"

definition bool_map :: "bool \<Rightarrow> string" where
  "bool_map b = (if b then ''yes'' else ''no'')"

text \<open>
  The two \<open>isinstance\<close> tests of \<open>ConfigMap.to_string\<close>: a boolean goes through
  \<open>_bool_map\<close>, anything else that is not a string through \<open>str\<close>.
\<close>

fun render_value :: "pyval \<Rightarrow> string" where
  "render_value (PBool b) = bool_map b"
| "render_value (PStr s) = s"
| "render_value (PInt i) = str_int i"

definition entry_line :: "string \<Rightarrow> pyval \<Rightarrow> string" where
  "entry_line k v = k @ ''='' @ quote_value (render_value v) @ nl"

text \<open>
  The loop of \<open>ConfigMap.to_string\<close> over \<open>sorted(self._conf.keys())\<close>, writing to the
  buffer. The keys come from the dictionary itself, so the lookup \<open>self._conf[key]\<close>
  is defined (lemma \<open>map_of_keys\<close> below).
\<close>

fun write_entries :: "conf \<Rightarrow> string list \<Rightarrow> string \<Rightarrow> string" where
  "write_entries c [] buf = buf"
| "write_entries c (k # ks) buf = write_entries c ks (buf @ entry_line k (the (map_of c k)))"

definition to_string :: "conf \<Rightarrow> string" where
  "to_string c =
     write_entries c (sort (keys c)) (make_header ''#'' @ (if c \<noteq> [] then nl else []))"

text \<open>The stores that a sequence of \<open>set\<close> and \<open>remove\<close> operations leads to.\<close>

inductive reachable :: "conf \<Rightarrow> bool" where
  reachable_empty: "reachable []"
| reachable_set: "reachable c \<Longrightarrow> reachable (setitem k v c)"
| reachable_remove: "reachable c \<Longrightarrow> reachable (drop_key k c)"

section \<open>Route\<close>

text \<open>
  The class \<open>Route\<close>: a \<open>ConfigMap\<close> with the next free index, the two default-route
  flags, and the name and directory that give its two file paths.
\<close>

record route_cfg =
  r_conf :: conf
  last_idx :: int
  has_set_default_ipv4 :: bool
  has_set_default_ipv6 :: bool
  route_name :: string
  r_base_sysconf_dir :: string

definition new_route :: "string \<Rightarrow> string \<Rightarrow> route_cfg" where
  "new_route route_nm base =
     \<lparr>r_conf = [], last_idx = 1, has_set_default_ipv4 = False,
      has_set_default_ipv6 = False, route_name = route_nm, r_base_sysconf_dir = base\<rparr>"



definition is_ipv6_route :: "string \<Rightarrow> bool" where
  "is_ipv6_route addr = (CHR '':'' \<in> set addr)"

text \<open>
  The loop of \<open>Route.to_string\<close> over the sorted keys, with the running \<open>reindex\<close>
  counter and the buffer. The lookups of \<open>NETMASK<index>\<close> and \<open>GATEWAY<index>\<close> raise
  \<open>KeyError\<close> when the key is missing; the netmask is looked up first.
\<close>

fun route_entries :: "string \<Rightarrow> conf \<Rightarrow> string list \<Rightarrow> int \<Rightarrow> string \<Rightarrow> error + string" where
  "route_entries proto c [] reindex buf = Inr buf"
| "route_entries proto c (key # ks) reindex buf =
     (if contains ''ADDRESS'' key then
        (if proto = ''ipv4'' \<and> \<not> is_ipv6_route (py_str (the (map_of c key))) then
           (case getitem c (''NETMASK'' @ str_remove ''ADDRESS'' key) of
              Inl e \<Rightarrow> Inl e
            | Inr nm \<Rightarrow>
               (case getitem c (''GATEWAY'' @ str_remove ''ADDRESS'' key) of
                  Inl e \<Rightarrow> Inl e
                | Inr gw \<Rightarrow>
                    route_entries proto c ks (reindex + 1)
                      (buf @ ''ADDRESS'' @ str_int (reindex + 1) @ ''=''
                             @ quote_value (py_str (the (map_of c key))) @ nl
                           @ ''GATEWAY'' @ str_int (reindex + 1) @ ''=''
                             @ quote_value (py_str gw) @ nl
                           @ ''NETMASK'' @ str_int (reindex + 1) @ ''=''
                             @ quote_value (py_str nm) @ nl)))
         else if proto = ''ipv6'' \<and> is_ipv6_route (py_str (the (map_of c key))) then
           (case getitem c (''NETMASK'' @ str_remove ''ADDRESS'' key) of
              Inl e \<Rightarrow> Inl e
            | Inr nm \<Rightarrow>
               (case getitem c (''GATEWAY'' @ str_remove ''ADDRESS'' key) of
                  Inl e \<Rightarrow> Inl e
                | Inr gw \<Rightarrow>
                    route_entries proto c ks reindex
                      (buf @ py_str (the (map_of c key)) @ ''/'' @ py_str nm
                           @ '' via '' @ py_str gw @ nl)))
         else route_entries proto c ks reindex buf)
      else route_entries proto c ks reindex buf)"

definition route_to_string :: "route_cfg \<Rightarrow> string \<Rightarrow> error + string" where
  "route_to_string r proto =
     (if proto \<notin> set [''ipv4'', ''ipv6''] then Inl (UnknownProtocol proto)
      else route_entries proto (r_conf r) (sort (keys (r_conf r))) (- 1)
             (make_header ''#'' @ (if r_conf r \<noteq> [] then nl else [])))"

section \<open>NetInterface\<close>

definition iface_types :: "(string \<times> string) list" where
  "iface_types = [(''ethernet'', ''Ethernet''), (''bond'', ''Bond''), (''bridge'', ''Bridge'')]"

text \<open>
  The class \<open>NetInterface\<close>: its \<open>ConfigMap\<close> dictionary, its children, its route table,
  and the private fields \<open>_kind\<close>, \<open>_iface_name\<close> and \<open>_base_sysconf_dir\<close>.
\<close>

datatype net_interface =
  NetInterface (conf: conf) (children: "net_interface list") (routes: route_cfg)
    (kind: string) (iface_name: string) (base_sysconf_dir: string)

text \<open>The inherited \<open>__setitem__\<close> and \<open>drop\<close> on an interface.\<close>

definition iface_setitem :: "string \<Rightarrow> pyval \<Rightarrow> net_interface \<Rightarrow> net_interface" where
  "iface_setitem k v n =
     NetInterface (setitem k v (conf n)) (children n) (routes n) (kind n) (iface_name n)
       (base_sysconf_dir n)"

definition iface_drop :: "string \<Rightarrow> net_interface \<Rightarrow> net_interface" where
  "iface_drop k n =
     NetInterface (drop_key k (conf n)) (children n) (routes n) (kind n) (iface_name n)
       (base_sysconf_dir n)"

text \<open>The setters of the properties \<open>kind\<close> and \<open>name\<close>.\<close>

definition set_kind :: "string \<Rightarrow> net_interface \<Rightarrow> error + net_interface" where
  "set_kind k n =
     (case map_of iface_types k of
        None \<Rightarrow> Inl (InvalidKind k)
      | Some label \<Rightarrow>
          Inr (NetInterface (setitem ''TYPE'' (PStr label) (conf n)) (children n) (routes n) k
                 (iface_name n) (base_sysconf_dir n)))"

definition set_name :: "string \<Rightarrow> net_interface \<Rightarrow> net_interface" where
  "set_name nm n =
     NetInterface (setitem ''DEVICE'' (PStr nm) (conf n)) (children n) (routes n) (kind n) nm
       (base_sysconf_dir n)"

text \<open>
  \<open>NetInterface.__init__\<close>: empty dictionary, no children, a fresh route table, then the
  kind setter (which may raise), then the name and \<open>DEVICE\<close>.
\<close>

definition new_net_interface :: "string \<Rightarrow> string \<Rightarrow> string \<Rightarrow> error + net_interface" where
  "new_net_interface nm base k =
     (case set_kind k (NetInterface [] [] (new_route nm base) k nm base) of
        Inl e \<Rightarrow> Inl e
      | Inr n \<Rightarrow> Inr (iface_setitem ''DEVICE'' (PStr nm) n))"


definition iface_copy :: "net_interface \<Rightarrow> bool \<Rightarrow> bool \<Rightarrow> error + net_interface" where
  "iface_copy n copy_children copy_routes =
     (case new_net_interface (iface_name n) (base_sysconf_dir n) (kind n) of
        Inl e \<Rightarrow> Inl e
      | Inr c \<Rightarrow>
          Inr (NetInterface (conf n)
                 (if copy_children then children n else children c)
                 (if copy_routes then routes n else routes c)
                 (kind c) (iface_name c) (base_sysconf_dir c)))"

section \<open>Subnets and routes of the network state\<close>

text \<open>
  A route is a dictionary with the keys \<open>network\<close>, \<open>netmask\<close> and \<open>gateway\<close>, each of
  which may be missing. A subnet is a dictionary too; the record has one field for each
  key the renderer reads, \<open>None\<close> when the key is absent (\<open>subnet.get(key)\<close>).
\<close>

type_synonym route = "string \<rightharpoonup> pyval"

record subnet =
  subnet_type :: "string option"
  address :: "string option"
  netmask :: "pyval option"
  subnet_routes :: "route list option"
  ipv4 :: "pyval option"
  ipv6 :: "pyval option"

definition subnet_is_ipv6 :: "subnet \<Rightarrow> error + bool" where
  "subnet_is_ipv6 s =
     (case subnet_type s of
        None \<Rightarrow> Inl (KeyError ''type'')
      | Some t \<Rightarrow>
          if endswith t (CHR ''6'') then Inr True
          else if t = ''static'' then
            (case address s of
               None \<Rightarrow> Inl (KeyError ''address'')
             | Some a \<Rightarrow> Inr (CHR '':'' \<in> set a))
          else Inr False)"

text \<open>
  \<open>_is_default_route\<close>: two tests in turn, each an \<open>and\<close> that looks at \<open>netmask\<close> only
  when the network matched.
\<close>

definition is_default_route :: "route \<Rightarrow> error + bool" where
  "is_default_route r =
     (case r ''network'' of
        None \<Rightarrow> Inl (KeyError ''network'')
      | Some net \<Rightarrow>
          (case (if net = PStr ''::'' then
                   (case r ''netmask'' of
                      None \<Rightarrow> Inl (KeyError ''netmask'')
                    | Some m \<Rightarrow> Inr (eq_zero m))
                 else Inr False) of
             Inl e \<Rightarrow> Inl e
           | Inr True \<Rightarrow> Inr True
           | Inr False \<Rightarrow>
               (if net = PStr ''0.0.0.0'' then
                  (case r ''netmask'' of
                     None \<Rightarrow> Inl (KeyError ''netmask'')
                   | Some m \<Rightarrow> Inr (m = PStr ''0.0.0.0''))
                else Inr False)))"

section \<open>Renderer: subnets\<close>

text \<open>The body of the first loop of \<open>_render_subnets\<close>.\<close>

definition scan_subnet :: "subnet \<Rightarrow> net_interface \<Rightarrow> error + net_interface" where
  "scan_subnet s ic =
     (if subnet_type s = Some ''dhcp6'' then
        Inr (iface_setitem ''BOOTPROTO'' (PStr ''none'')
               (iface_setitem ''DHCPV6C'' (PBool True)
                  (iface_setitem ''IPV6INIT'' (PBool True) ic)))
      else if subnet_type s \<in> set [Some ''dhcp4'', Some ''dhcp''] then
        Inr (iface_setitem ''BOOTPROTO'' (PStr ''none'') ic)
      else if subnet_type s = Some ''static'' then
        (case subnet_is_ipv6 s of
           Inl e \<Rightarrow> Inl e
         | Inr b \<Rightarrow> Inr (if b then iface_setitem ''IPV6INIT'' (PBool True) ic else ic))
      else Inl (UnknownSubnetType (subnet_type s) (iface_name ic)))"

fun scan_subnets :: "subnet list \<Rightarrow> net_interface \<Rightarrow> error + net_interface" where
  "scan_subnets [] ic = Inr ic"
| "scan_subnets (s # ss) ic =
     (case scan_subnet s ic of Inl e \<Rightarrow> Inl e | Inr ic' \<Rightarrow> scan_subnets ss ic')"

text \<open>
  The body of the second loop, on the state \<open>(ipv4_index, ipv6_index, iface_cfg)\<close>.
  The loop has no \<open>else\<close>: a type it does not know is passed over.
\<close>

definition ipv6_cidr :: "subnet \<Rightarrow> string \<Rightarrow> string" where
  "ipv6_cidr s a =
     (case netmask s of
        None \<Rightarrow> a
      | Some m \<Rightarrow> if py_str m \<noteq> [] then a @ ''/'' @ py_str m else a)"

definition set_optional :: "string \<Rightarrow> pyval option \<Rightarrow> net_interface \<Rightarrow> net_interface" where
  "set_optional k vo ic = (case vo of None \<Rightarrow> ic | Some v \<Rightarrow> iface_setitem k v ic)"

definition assign_subnet ::
  "subnet \<Rightarrow> int \<times> int \<times> net_interface \<Rightarrow> error + int \<times> int \<times> net_interface" where
  "assign_subnet s st =
     (case st of (ipv4_index, ipv6_index, ic) \<Rightarrow>
        if subnet_type s = Some ''dhcp6'' then Inr st
        else if subnet_type s \<in> set [Some ''dhcp4'', Some ''dhcp''] then Inr st
        else if subnet_type s = Some ''static'' then
          (case subnet_is_ipv6 s of
             Inl e \<Rightarrow> Inl e
           | Inr True \<Rightarrow>
               (case address s of
                  None \<Rightarrow> Inl (KeyError ''address'')
                | Some a \<Rightarrow>
                    if ipv6_index + 1 = 0 then
                      Inr (ipv4_index, ipv6_index + 1,
                           iface_setitem ''IPV6ADDR'' (PStr (ipv6_cidr s a)) ic)
                    else if ipv6_index + 1 = 1 then
                      Inr (ipv4_index, ipv6_index + 1,
                           iface_setitem ''IPV6ADDR_SECONDARIES'' (PStr (ipv6_cidr s a)) ic)
                    else
                      (case getitem (conf ic) ''IPV6ADDR_SECONDARIES'' of
                         Inl e \<Rightarrow> Inl e
                       | Inr (PStr old) \<Rightarrow>
                           Inr (ipv4_index, ipv6_index + 1,
                                iface_setitem ''IPV6ADDR_SECONDARIES''
                                  (PStr (old @ '' '' @ ipv6_cidr s a)) ic)
                       | Inr _ \<Rightarrow> Inl TypeError))
           | Inr False \<Rightarrow>
               (case address s of
                  None \<Rightarrow> Inl (KeyError ''address'')
                | Some a \<Rightarrow>
                    if ipv4_index + 1 = 0 then
                      Inr (ipv4_index + 1, ipv6_index,
                           set_optional ''NETMASK'' (netmask s)
                             (iface_setitem ''IPADDR'' (PStr a) ic))
                    else
                      Inr (ipv4_index + 1, ipv6_index,
                           set_optional (''NETMASK'' @ str_int (ipv4_index + 1)) (netmask s)
                             (iface_setitem (''IPADDR'' @ str_int (ipv4_index + 1)) (PStr a) ic))))
        else Inr st)"

fun assign_subnets ::
  "subnet list \<Rightarrow> int \<times> int \<times> net_interface \<Rightarrow> error + int \<times> int \<times> net_interface" where
  "assign_subnets [] st = Inr st"
| "assign_subnets (s # ss) st =
     (case assign_subnet s st of Inl e \<Rightarrow> Inl e | Inr st' \<Rightarrow> assign_subnets ss st')"

text \<open>
  \<open>_render_subnets\<close>: \<open>BOOTPROTO\<close> first, then the two loops. The counter \<open>i\<close> of
  \<open>enumerate\<close> is not used by the source and is left out.
\<close>

definition render_subnets :: "net_interface \<Rightarrow> subnet list \<Rightarrow> error + net_interface" where
  "render_subnets iface_cfg subnets =
     (case scan_subnets subnets (iface_setitem ''BOOTPROTO'' (PStr ''none'') iface_cfg) of
        Inl e \<Rightarrow> Inl e
      | Inr ic \<Rightarrow>
          (case assign_subnets subnets (- 1, - 1, ic) of
             Inl e \<Rightarrow> Inl e
           | Inr st \<Rightarrow> Inr (snd (snd st))))"

section \<open>Renderer: routes of the subnets\<close>

text \<open>
  The loop over \<open>[('gateway', gw_key), ('netmask', nm_key), ('network', addr_key)]\<close>
  that copies the fields a route has into the route table.
\<close>

fun copy_route_keys :: "(string \<times> string) list \<Rightarrow> route \<Rightarrow> conf \<Rightarrow> conf" where
  "copy_route_keys [] route c = c"
| "copy_route_keys ((old_key, new_key) # ps) route c =
     copy_route_keys ps route
       (case route old_key of None \<Rightarrow> c | Some v \<Rightarrow> setitem new_key v c)"

text \<open>
  The body of the inner loop of \<open>_render_subnet_routes\<close> for one route of one subnet.
  The source passes the interface and the route table as two arguments, and the state
  is the pair of them: the interface's dictionary and the table are updated, and the
  field \<open>routes\<close> of the interface is neither read nor written here. The one caller
  passes \<open>iface_cfg.routes\<close> as the table, so that there the table of the result is the
  interface's own (\<open>render_physical_interface\<close> below).
\<close>

definition render_route ::
  "subnet \<Rightarrow> route \<Rightarrow> net_interface \<times> route_cfg \<Rightarrow> error + net_interface \<times> route_cfg" where
  "render_route s route st =
     (case st of (iface_cfg, route_cfg) \<Rightarrow>
        (case is_default_route route of
           Inl e \<Rightarrow> Inl e
         | Inr True \<Rightarrow>
             if (truthy (ipv4 s) \<and> has_set_default_ipv4 route_cfg)
                \<or> (truthy (ipv6 s) \<and> has_set_default_ipv6 route_cfg)
             then Inl (DuplicateDefaultRoute (iface_name iface_cfg))
             else
               (case route ''gateway'' of
                  None \<Rightarrow> Inr (iface_setitem ''DEFROUTE'' (PBool True) iface_cfg, route_cfg)
                | Some gw \<Rightarrow>
                    if truthy (ipv6 s) then
                      Inr (iface_setitem ''IPV6_DEFAULTGW'' gw
                             (iface_setitem ''DEFROUTE'' (PBool True) iface_cfg),
                           route_cfg\<lparr>has_set_default_ipv6 := True\<rparr>)
                    else
                      Inr (iface_setitem ''GATEWAY'' gw
                             (iface_setitem ''DEFROUTE'' (PBool True) iface_cfg),
                           route_cfg\<lparr>has_set_default_ipv4 := True\<rparr>))
         | Inr False \<Rightarrow>
             Inr (iface_cfg,
                  route_cfg\<lparr>last_idx := last_idx route_cfg + 1,
                    r_conf :=
                      copy_route_keys
                        [(''gateway'', ''GATEWAY'' @ str_int (last_idx route_cfg)),
                         (''netmask'', ''NETMASK'' @ str_int (last_idx route_cfg)),
                         (''network'', ''ADDRESS'' @ str_int (last_idx route_cfg))]
                        route (r_conf route_cfg)\<rparr>)))"

fun render_routes ::
  "subnet \<Rightarrow> route list \<Rightarrow> net_interface \<times> route_cfg \<Rightarrow> error + net_interface \<times> route_cfg" where
  "render_routes s [] st = Inr st"
| "render_routes s (r # rs) st =
     (case render_route s r st of Inl e \<Rightarrow> Inl e | Inr st' \<Rightarrow> render_routes s rs st')"

text \<open>\<open>subnet.get('routes', [])\<close>.\<close>

definition get_routes :: "subnet \<Rightarrow> route list" where
  "get_routes s = (case subnet_routes s of None \<Rightarrow> [] | Some rs \<Rightarrow> rs)"

fun render_subnet_routes ::
  "subnet list \<Rightarrow> net_interface \<times> route_cfg \<Rightarrow> error + net_interface \<times> route_cfg" where
  "render_subnet_routes [] st = Inr st"
| "render_subnet_routes (s # ss) st =
     (case render_routes s (get_routes s) st of
        Inl e \<Rightarrow> Inl e
      | Inr st' \<Rightarrow> render_subnet_routes ss st')"

text \<open>
  The body of the loop of \<open>_render_physical_interfaces\<close> for one interface: the subnets,
  then their routes with \<open>route_cfg = iface_cfg.routes\<close>. The route table is the one
  object that both names refer to, so the interface that results holds the table that
  the route pass has updated.
\<close>

definition with_routes :: "route_cfg \<Rightarrow> net_interface \<Rightarrow> net_interface" where
  "with_routes rt n =
     NetInterface (conf n) (children n) rt (kind n) (iface_name n) (base_sysconf_dir n)"

definition render_physical_interface ::
  "net_interface \<Rightarrow> subnet list \<Rightarrow> error + net_interface" where
  "render_physical_interface iface_cfg iface_subnets =
     (case render_subnets iface_cfg iface_subnets of
        Inl e \<Rightarrow> Inl e
      | Inr ic \<Rightarrow>
          (case render_subnet_routes iface_subnets (ic, routes ic) of
             Inl e \<Rightarrow> Inl e
           | Inr st \<Rightarrow> Inr (with_routes (snd st) (fst st))))"

section \<open>Renderer: collection\<close>





section \<open>Notions used to state the properties\<close>

text \<open>
  The interfaces that the operations of \<open>NetInterface\<close> lead to: the constructor, the two
  setters, \<open>copy\<close>, a change of the children or of the route table, and the inherited
  dictionary operations on a key other than \<open>TYPE\<close> and \<open>DEVICE\<close>.
\<close>

inductive iface_reachable :: "net_interface \<Rightarrow> bool" where
  created: "new_net_interface nm base k = Inr n \<Longrightarrow> iface_reachable n"
| kind_set: "iface_reachable n \<Longrightarrow> set_kind k n = Inr n' \<Longrightarrow> iface_reachable n'"
| name_set: "iface_reachable n \<Longrightarrow> iface_reachable (set_name nm n)"
| copied: "iface_reachable n \<Longrightarrow> iface_copy n cc cr = Inr n' \<Longrightarrow> iface_reachable n'"
| parts_changed:
    "iface_reachable n \<Longrightarrow>
     iface_reachable (NetInterface (conf n) chs rt (kind n) (iface_name n) (base_sysconf_dir n))"
| item_set:
    "iface_reachable n \<Longrightarrow> k \<noteq> ''TYPE'' \<Longrightarrow> k \<noteq> ''DEVICE'' \<Longrightarrow>
     iface_reachable (iface_setitem k v n)"
| item_dropped:
    "iface_reachable n \<Longrightarrow> k \<noteq> ''TYPE'' \<Longrightarrow> k \<noteq> ''DEVICE'' \<Longrightarrow>
     iface_reachable (iface_drop k n)"



text \<open>
  The subnet types the renderer knows, and the static subnets of each family: a static
  subnet is IPv6 when its address has a colon.
\<close>

definition known_type :: "subnet \<Rightarrow> bool" where
  "known_type s =
     (subnet_type s \<in> set [Some ''dhcp6'', Some ''dhcp4'', Some ''dhcp'', Some ''static''])"

definition is_static4 :: "subnet \<Rightarrow> bool" where
  "is_static4 s =
     (subnet_type s = Some ''static'' \<and>
      (case address s of None \<Rightarrow> False | Some a \<Rightarrow> CHR '':'' \<notin> set a))"

definition is_static6 :: "subnet \<Rightarrow> bool" where
  "is_static6 s =
     (subnet_type s = Some ''static'' \<and>
      (case address s of None \<Rightarrow> False | Some a \<Rightarrow> CHR '':'' \<in> set a))"

text \<open>
  A subnet the renderer accepts: its type is known and, when it is static, it has an
  address. The suffix of the keys of the \<open>n\<close>-th static IPv4 subnet, counted from 0, and
  the text written for a static IPv6 subnet.
\<close>

definition wf_subnet :: "subnet \<Rightarrow> bool" where
  "wf_subnet s = (known_type s \<and> (subnet_type s = Some ''static'' \<longrightarrow> address s \<noteq> None))"

definition index_suffix :: "nat \<Rightarrow> string" where
  "index_suffix n = (if n = 0 then [] else str_nat n)"

definition subnet_cidr :: "subnet \<Rightarrow> string" where
  "subnet_cidr s = ipv6_cidr s (the (address s))"

text \<open>
  The serialization of a route table in the words of its description. A key matches
  the pattern \<open>ADDRESS<n>\<close> when it is \<open>ADDRESS\<close> followed by decimal digits, which are
  its index. The matching keys are taken in ascending key order and those of the other
  family are skipped. IPv4: the \<open>i\<close>-th remaining entry, counted from 0, gives the lines
  \<open>ADDRESS<i>=\<close>, \<open>GATEWAY<i>=\<close>, \<open>NETMASK<i>=\<close>. IPv6: each remaining entry gives the
  line \<open><address>/<netmask> via <gateway>\<close>.
\<close>

definition is_digits :: "string \<Rightarrow> bool" where
  "is_digits s = (s \<noteq> [] \<and> list_all (\<lambda>c. c \<in> set ''0123456789'') s)"

definition is_address_key :: "string \<Rightarrow> bool" where
  "is_address_key k = (take 7 k = ''ADDRESS'' \<and> is_digits (drop 7 k))"

definition entry_field :: "conf \<Rightarrow> string \<Rightarrow> string \<Rightarrow> string" where
  "entry_field c name k = py_str (the (map_of c (name @ drop 7 k)))"

definition family_keys :: "conf \<Rightarrow> string \<Rightarrow> string list" where
  "family_keys c proto =
     filter (\<lambda>k. is_ipv6_route (entry_field c ''ADDRESS'' k) = (proto = ''ipv6''))
       (filter is_address_key (sort (keys c)))"

definition ipv4_lines :: "conf \<Rightarrow> nat \<times> string \<Rightarrow> string" where
  "ipv4_lines c ik =
     ''ADDRESS'' @ str_nat (fst ik) @ ''='' @ quote_value (entry_field c ''ADDRESS'' (snd ik)) @ nl
     @ ''GATEWAY'' @ str_nat (fst ik) @ ''='' @ quote_value (entry_field c ''GATEWAY'' (snd ik)) @ nl
     @ ''NETMASK'' @ str_nat (fst ik) @ ''='' @ quote_value (entry_field c ''NETMASK'' (snd ik)) @ nl"

definition ipv6_line :: "conf \<Rightarrow> string \<Rightarrow> string" where
  "ipv6_line c k =
     entry_field c ''ADDRESS'' k @ ''/'' @ entry_field c ''NETMASK'' k
     @ '' via '' @ entry_field c ''GATEWAY'' k @ nl"

definition serialize_spec :: "conf \<Rightarrow> string \<Rightarrow> string" where
  "serialize_spec c proto =
     make_header ''#'' @ (if c = [] then [] else nl) @
     (if proto = ''ipv4'' then concat (map (ipv4_lines c) (enumerate 0 (family_keys c proto)))
      else concat (map (ipv6_line c) (family_keys c proto)))"

text \<open>
  The route tables whose keys that contain \<open>ADDRESS\<close> all match \<open>ADDRESS<n>\<close>; the route
  pass builds no other (lemma \<open>render_route_keys\<close> below).
\<close>

definition route_keys_ok :: "conf \<Rightarrow> bool" where
  "route_keys_ok c = list_all (\<lambda>k. contains ''ADDRESS'' k \<longrightarrow> is_address_key k) (keys c)"

section \<open>Example inputs\<close>

text \<open>
  An interface \<open>eth0\<close> as \<open>NetInterface('eth0', '/etc/sysconfig')\<close> builds it, some routes
  and some subnets, used to run the definitions on concrete inputs.
\<close>

definition eth0_routes :: route_cfg where
  "eth0_routes = new_route ''eth0'' ''/etc/sysconfig''"

definition eth0 :: net_interface where
  "eth0 =
     NetInterface [(''TYPE'', PStr ''Ethernet''), (''DEVICE'', PStr ''eth0'')] [] eth0_routes
       ''ethernet'' ''eth0'' ''/etc/sysconfig''"

definition default_route4 :: "string \<Rightarrow> route" where
  "default_route4 gw =
     [''network'' \<mapsto> PStr ''0.0.0.0'', ''netmask'' \<mapsto> PStr ''0.0.0.0'', ''gateway'' \<mapsto> PStr gw]"

definition default_route4_no_gateway :: route where
  "default_route4_no_gateway =
     [''network'' \<mapsto> PStr ''0.0.0.0'', ''netmask'' \<mapsto> PStr ''0.0.0.0'']"

definition default_route6 :: "string \<Rightarrow> route" where
  "default_route6 gw =
     [''network'' \<mapsto> PStr ''::'', ''netmask'' \<mapsto> PInt 0, ''gateway'' \<mapsto> PStr gw]"

definition net_route :: "string \<Rightarrow> string \<Rightarrow> string \<Rightarrow> route" where
  "net_route net nm gw =
     [''network'' \<mapsto> PStr net, ''netmask'' \<mapsto> PStr nm, ''gateway'' \<mapsto> PStr gw]"

definition static_subnet :: "string \<Rightarrow> pyval option \<Rightarrow> route list \<Rightarrow> subnet" where
  "static_subnet addr nm rs =
     \<lparr>subnet_type = Some ''static'', address = Some addr, netmask = nm,
      subnet_routes = Some rs, ipv4 = None, ipv6 = None\<rparr>"

definition static_subnet4 :: "string \<Rightarrow> pyval option \<Rightarrow> route list \<Rightarrow> subnet" where
  "static_subnet4 addr nm rs = (static_subnet addr nm rs)\<lparr>ipv4 := Some (PBool True)\<rparr>"

definition static_subnet6 :: "string \<Rightarrow> pyval option \<Rightarrow> route list \<Rightarrow> subnet" where
  "static_subnet6 addr nm rs = (static_subnet addr nm rs)\<lparr>ipv6 := Some (PBool True)\<rparr>"

definition eth0_one_route :: route_cfg where
  "eth0_one_route =
     eth0_routes\<lparr>last_idx := 2,
       r_conf := [(''GATEWAY1'', PStr ''10.0.0.254''), (''NETMASK1'', PStr ''255.255.0.0''),
                  (''ADDRESS1'', PStr ''10.1.0.0'')]\<rparr>"


definition mixed_routes :: conf where
  "mixed_routes =
     [(''GATEWAY1'', PStr ''2001:db8::1''), (''NETMASK1'', PInt 64),
      (''ADDRESS1'', PStr ''2001:db8:1::''),
      (''GATEWAY2'', PStr ''10.0.0.254''), (''NETMASK2'', PStr ''255.255.0.0''),
      (''ADDRESS2'', PStr ''10.1.0.0''),
      (''GATEWAY3'', PStr ''10.0.0.253''), (''NETMASK3'', PStr ''255.255.255.0''),
      (''ADDRESS3'', PStr ''10.2.0.0'')]"


text \<open>
  A route without a netmask and the table that the route pass builds from it, a table
  with a key that contains \<open>ADDRESS\<close> without being of the form \<open>ADDRESS<n>\<close>, and two
  more interfaces: one that holds the table without the netmask, and one that has
  \<open>eth1\<close> as its child.
\<close>

definition host_route :: route where
  "host_route = [''network'' \<mapsto> PStr ''10.1.0.0'', ''gateway'' \<mapsto> PStr ''10.0.0.254'']"

definition eth0_no_netmask :: route_cfg where
  "eth0_no_netmask =
     eth0_routes\<lparr>last_idx := 2,
       r_conf := [(''GATEWAY1'', PStr ''10.0.0.254''), (''ADDRESS1'', PStr ''10.1.0.0'')]\<rparr>"

definition odd_key_routes :: conf where
  "odd_key_routes =
     [(''XADDRESS1'', PStr ''10.1.0.0''), (''NETMASKX1'', PStr ''255.255.0.0''),
      (''GATEWAYX1'', PStr ''10.0.0.254'')]"



section \<open>Properties of ConfigMap\<close>

lemma map_of_keys: "k \<in> set (sort (keys c)) \<Longrightarrow> map_of c k \<noteq> None"
  by (simp add: keys_def map_of_eq_None_iff)

lemma reachable_distinct: "reachable c \<Longrightarrow> distinct (keys c)"
  by (induction rule: reachable.induct)
     (simp_all add: keys_def setitem_def drop_key_def distinct_update distinct_delete)

lemma write_entries_concat:
  "write_entries c ks buf = buf @ concat (map (\<lambda>k. entry_line k (the (map_of c k))) ks)"
  by (induction ks arbitrary: buf) simp_all

lemma sorted_keys_strict: "distinct (keys c) \<Longrightarrow> sorted_wrt (<) (sort (keys c))"
  by (simp add: strict_sorted_iff)

lemma sorted_keys_unique:
  assumes "distinct (keys c)" "distinct (keys c')" "map_of c = map_of c'"
  shows "sort (keys c) = sort (keys c')"
proof -
  have "set (keys c) = dom (map_of c)" "set (keys c') = dom (map_of c')"
    by (simp_all add: keys_def dom_map_of_conv_image_fst)
  with assms(3) have "set (sort (keys c)) = set (sort (keys c'))"
    by simp
  moreover have "distinct (sort (keys c))" "distinct (sort (keys c'))"
    using assms(1,2) by simp_all
  ultimately show ?thesis
    by (intro sorted_distinct_set_unique) simp_all
qed

text \<open>
  C7. Whatever sequence of \<open>set\<close> and \<open>remove\<close> operations built the store, the serialized
  text is the header, a separating newline when the store is not empty, and then one
  \<open>KEY=VALUE\<close> line per key, the keys going through the whole key set in strictly
  ascending lexicographic order; and two stores built in different orders that hold the
  same key-value mapping serialize to the same text.
\<close>

theorem to_string_sorted_by_key:
  "reachable c \<Longrightarrow> reachable c' \<Longrightarrow>
     (\<exists>ks. sorted_wrt (<) ks \<and> set ks = fst ` set c \<and>
        to_string c =
          make_header ''#'' @ (if c = [] then [] else nl) @
          concat (map (\<lambda>k. k @ ''='' @ quote_value (render_value (the (map_of c k))) @ nl) ks))
     \<and> (map_of c = map_of c' \<longrightarrow> to_string c = to_string c')"
proof -
  assume rc: "reachable c" and rc': "reachable c'"
  have d: "distinct (keys c)" and d': "distinct (keys c')"
    using rc rc' by (simp_all add: reachable_distinct)
  have "to_string c =
          make_header ''#'' @ (if c = [] then [] else nl) @
          concat (map (\<lambda>k. k @ ''='' @ quote_value (render_value (the (map_of c k))) @ nl)
                    (sort (keys c)))"
    by (simp add: to_string_def write_entries_concat entry_line_def)
  moreover have "sorted_wrt (<) (sort (keys c))"
    using d by (rule sorted_keys_strict)
  moreover have "set (sort (keys c)) = fst ` set c"
    by (simp add: keys_def)
  ultimately have first: "\<exists>ks. sorted_wrt (<) ks \<and> set ks = fst ` set c \<and>
        to_string c =
          make_header ''#'' @ (if c = [] then [] else nl) @
          concat (map (\<lambda>k. k @ ''='' @ quote_value (render_value (the (map_of c k))) @ nl) ks)"
    by blast
  have second: "to_string c = to_string c'" if eq: "map_of c = map_of c'"
  proof -
    have "sort (keys c) = sort (keys c')"
      using d d' eq by (rule sorted_keys_unique)
    moreover have "(c = []) = (c' = [])"
      using eq by (metis map_of_eq_empty_iff)
    ultimately show ?thesis
      by (simp add: to_string_def write_entries_concat eq)
  qed
  from first second show ?thesis by blast
qed

theorem to_string_sorted_by_key_witness:
  "reachable (setitem ''ONBOOT'' (PBool False) (setitem ''DEVICE'' (PStr ''eth0'') []))
   \<and> reachable (setitem ''DEVICE'' (PStr ''eth0'') (setitem ''ONBOOT'' (PBool False) []))
   \<and> map_of (setitem ''ONBOOT'' (PBool False) (setitem ''DEVICE'' (PStr ''eth0'') []))
       = map_of (setitem ''DEVICE'' (PStr ''eth0'') (setitem ''ONBOOT'' (PBool False) []))
   \<and> to_string (setitem ''ONBOOT'' (PBool False) (setitem ''DEVICE'' (PStr ''eth0'') []))
       = to_string (setitem ''DEVICE'' (PStr ''eth0'') (setitem ''ONBOOT'' (PBool False) []))"
proof -
  let ?c = "setitem ''ONBOOT'' (PBool False) (setitem ''DEVICE'' (PStr ''eth0'') [])"
  let ?c' = "setitem ''DEVICE'' (PStr ''eth0'') (setitem ''ONBOOT'' (PBool False) [])"
  have r: "reachable ?c" and r': "reachable ?c'"
    by (intro reachable_set reachable_empty)+
  have m: "map_of ?c = map_of ?c'"
    by (auto simp add: setitem_def fun_eq_iff)
  from to_string_sorted_by_key [OF r r'] m have "to_string ?c = to_string ?c'"
    by blast
  with r r' m show ?thesis by blast
qed

lemma digit_in: "n < 10 \<Longrightarrow> ''0123456789'' ! n \<in> set ''0123456789''"
  by (rule nth_mem) simp

lemma str_nat_digits: "set (str_nat n) \<subseteq> set ''0123456789''"
proof (induction n rule: str_nat.induct)
  case (1 n)
  show ?case
  proof (cases "n < 10")
    case True
    then show ?thesis using digit_in [of n] by (subst str_nat.simps) simp
  next
    case False
    then show ?thesis using 1 digit_in [of "n mod 10"]
      by (subst str_nat.simps) simp
  qed
qed

lemma str_nat_not_Nil: "str_nat n \<noteq> []"
  by (subst str_nat.simps) simp

lemma str_int_no_space: "\<not> list_ex is_space (str_int i)"
proof -
  have "\<not> is_space c" if "c \<in> set ''0123456789'' \<or> c = CHR ''-''" for c
    using that by (auto simp add: is_space_def)
  then show ?thesis
    using str_nat_digits by (auto simp add: str_int_def list_ex_iff)
qed

lemma bool_map_no_space: "\<not> list_ex is_space (bool_map b)"
  by (simp add: bool_map_def is_space_def)

text \<open>
  C8. The text that \<open>ConfigMap.to_string\<close> returns for any store is the header, a newline
  when the store is not empty, and for each key in sorted order the line \<open>KEY=\<close> followed
  by the shown value, where the shown value is the same function of the stored value
  on every line: \<open>True\<close> is shown as \<open>yes\<close> and \<open>False\<close> as \<open>no\<close>; an integer as its decimal
  string; a string with whitespace between double quotes, unless it already starts and
  ends with a double quote, and then unchanged; a string without whitespace unchanged.
\<close>

theorem to_string_values:
  "\<exists>shown.
     to_string c =
       make_header ''#'' @ (if c = [] then [] else nl) @
       concat (map (\<lambda>k. k @ ''='' @ shown (the (map_of c k)) @ nl) (sort (keys c)))
     \<and> shown (PBool True) = ''yes''
     \<and> shown (PBool False) = ''no''
     \<and> (\<forall>i. shown (PInt i) = str_int i)
     \<and> (\<forall>s. list_ex is_space s
              \<and> \<not> (startswith s (CHR 0x22) \<and> endswith s (CHR 0x22)) \<longrightarrow>
            shown (PStr s) = dquote @ s @ dquote)
     \<and> (\<forall>s. list_ex is_space s \<and> startswith s (CHR 0x22) \<and> endswith s (CHR 0x22) \<longrightarrow>
            shown (PStr s) = s)
     \<and> (\<forall>s. \<not> list_ex is_space s \<longrightarrow> shown (PStr s) = s)"
proof (intro exI conjI)
  show "to_string c =
       make_header ''#'' @ (if c = [] then [] else nl) @
       concat (map (\<lambda>k. k @ ''='' @ (\<lambda>v. quote_value (render_value v)) (the (map_of c k)) @ nl)
                 (sort (keys c)))"
    by (simp add: to_string_def write_entries_concat entry_line_def)
  show "(\<lambda>v. quote_value (render_value v)) (PBool True) = ''yes''"
    using bool_map_no_space [of True] by (simp add: quote_value_def bool_map_def)
  show "(\<lambda>v. quote_value (render_value v)) (PBool False) = ''no''"
    using bool_map_no_space [of False] by (simp add: quote_value_def bool_map_def)
  show "\<forall>i. (\<lambda>v. quote_value (render_value v)) (PInt i) = str_int i"
    using str_int_no_space by (simp add: quote_value_def)
  show "\<forall>s. list_ex is_space s
              \<and> \<not> (startswith s (CHR 0x22) \<and> endswith s (CHR 0x22)) \<longrightarrow>
            (\<lambda>v. quote_value (render_value v)) (PStr s) = dquote @ s @ dquote"
    by (simp add: quote_value_def)
  show "\<forall>s. list_ex is_space s \<and> startswith s (CHR 0x22) \<and> endswith s (CHR 0x22) \<longrightarrow>
            (\<lambda>v. quote_value (render_value v)) (PStr s) = s"
    by (simp add: quote_value_def)
  show "\<forall>s. \<not> list_ex is_space s \<longrightarrow> (\<lambda>v. quote_value (render_value v)) (PStr s) = s"
    by (simp add: quote_value_def)
qed

theorem to_string_values_witness:
  "list_ex is_space ''my value''
   \<and> \<not> (startswith ''my value'' (CHR 0x22) \<and> endswith ''my value'' (CHR 0x22))
   \<and> list_ex is_space (dquote @ ''a b'' @ dquote)
   \<and> startswith (dquote @ ''a b'' @ dquote) (CHR 0x22)
   \<and> endswith (dquote @ ''a b'' @ dquote) (CHR 0x22)
   \<and> \<not> list_ex is_space ''eth0''
   \<and> to_string [(''NAME'', PStr ''my value''), (''MTU'', PInt 1500), (''ONBOOT'', PBool True),
                 (''USERCTL'', PBool False), (''DEVICE'', PStr ''eth0''),
                 (''ALIAS'', PStr (dquote @ ''a b'' @ dquote))]
       = make_header ''#'' @ nl
         @ ''ALIAS='' @ dquote @ ''a b'' @ dquote @ nl
         @ ''DEVICE=eth0'' @ nl
         @ ''MTU=1500'' @ nl
         @ ''NAME='' @ dquote @ ''my value'' @ dquote @ nl
         @ ''ONBOOT=yes'' @ nl
         @ ''USERCTL=no'' @ nl"
proof -
  let ?c = "[(''NAME'', PStr ''my value''), (''MTU'', PInt 1500), (''ONBOOT'', PBool True),
                 (''USERCTL'', PBool False), (''DEVICE'', PStr ''eth0''),
                 (''ALIAS'', PStr (dquote @ ''a b'' @ dquote))]"
  have a: "list_ex is_space ''my value''"
    "\<not> (startswith ''my value'' (CHR 0x22) \<and> endswith ''my value'' (CHR 0x22))"
    by (simp_all add: is_space_def startswith_def)
  have b: "list_ex is_space (dquote @ ''a b'' @ dquote)"
    "startswith (dquote @ ''a b'' @ dquote) (CHR 0x22)"
    "endswith (dquote @ ''a b'' @ dquote) (CHR 0x22)"
    by (simp_all add: is_space_def startswith_def endswith_def dquote_def)
  have e: "\<not> list_ex is_space ''eth0''"
    by (simp add: is_space_def)
  have ks: "sort (keys ?c) = [''ALIAS'', ''DEVICE'', ''MTU'', ''NAME'', ''ONBOOT'', ''USERCTL'']"
    by (simp add: keys_def)
  have n: "str_int 1500 = ''1500''"
    by (simp add: str_int_def str_nat.simps)
  from to_string_values [of ?c] obtain shown where
    out: "to_string ?c =
       make_header ''#'' @ (if ?c = [] then [] else nl) @
       concat (map (\<lambda>k. k @ ''='' @ shown (the (map_of ?c k)) @ nl) (sort (keys ?c)))"
    and t: "shown (PBool True) = ''yes''" and f: "shown (PBool False) = ''no''"
    and i: "\<forall>i. shown (PInt i) = str_int i"
    and q: "\<forall>s. list_ex is_space s
              \<and> \<not> (startswith s (CHR 0x22) \<and> endswith s (CHR 0x22)) \<longrightarrow>
            shown (PStr s) = dquote @ s @ dquote"
    and k: "\<forall>s. list_ex is_space s \<and> startswith s (CHR 0x22) \<and> endswith s (CHR 0x22) \<longrightarrow>
            shown (PStr s) = s"
    and p: "\<forall>s. \<not> list_ex is_space s \<longrightarrow> shown (PStr s) = s"
    by blast
  have v: "shown (PStr ''my value'') = dquote @ ''my value'' @ dquote"
    "shown (PStr (dquote @ ''a b'' @ dquote)) = dquote @ ''a b'' @ dquote"
    "shown (PStr ''eth0'') = ''eth0''"
    "shown (PInt 1500) = ''1500''"
  proof -
    show "shown (PStr ''my value'') = dquote @ ''my value'' @ dquote"
      using q a by blast
    show "shown (PStr (dquote @ ''a b'' @ dquote)) = dquote @ ''a b'' @ dquote"
      using k b by blast
    show "shown (PStr ''eth0'') = ''eth0''"
      using p e by blast
    show "shown (PInt 1500) = ''1500''"
      using i n by simp
  qed
  have "to_string ?c = make_header ''#'' @ nl
         @ ''ALIAS='' @ dquote @ ''a b'' @ dquote @ nl
         @ ''DEVICE=eth0'' @ nl
         @ ''MTU=1500'' @ nl
         @ ''NAME='' @ dquote @ ''my value'' @ dquote @ nl
         @ ''ONBOOT=yes'' @ nl
         @ ''USERCTL=no'' @ nl"
    unfolding out ks by (simp add: v [simplified] t f)
  with a b e show ?thesis by blast
qed

section \<open>Properties of the route pass\<close>

lemma map_of_setitem: "map_of (setitem k v c) = (map_of c)(k \<mapsto> v)"
  by (simp add: setitem_def update_conv')

lemma iface_setitem_sel:
  "conf (iface_setitem k v n) = setitem k v (conf n)"
  "children (iface_setitem k v n) = children n"
  "routes (iface_setitem k v n) = routes n"
  "kind (iface_setitem k v n) = kind n"
  "iface_name (iface_setitem k v n) = iface_name n"
  "base_sysconf_dir (iface_setitem k v n) = base_sysconf_dir n"
  by (simp_all add: iface_setitem_def)

lemma new_eth0: "new_net_interface ''eth0'' ''/etc/sysconfig'' ''ethernet'' = Inr eth0"
  by (simp add: new_net_interface_def set_kind_def iface_types_def iface_setitem_def
      setitem_def eth0_def eth0_routes_def)

lemma is_default_route_examples:
  "is_default_route (default_route4 gw) = Inr True"
  "is_default_route default_route4_no_gateway = Inr True"
  "is_default_route (default_route6 gw) = Inr True"
  "is_default_route (net_route ''10.1.0.0'' ''255.255.0.0'' gw) = Inr False"
  by (simp_all add: is_default_route_def default_route4_def default_route4_no_gateway_def
      default_route6_def net_route_def)

lemma render_routes_append:
  "render_routes s (xs @ ys) st =
     (case render_routes s xs st of Inl e \<Rightarrow> Inl e | Inr st' \<Rightarrow> render_routes s ys st')"
  by (induction xs arbitrary: st) (simp_all split: sum.splits)

lemma render_subnet_routes_append:
  "render_subnet_routes (xs @ ys) st =
     (case render_subnet_routes xs st of Inl e \<Rightarrow> Inl e | Inr st' \<Rightarrow> render_subnet_routes ys st')"
  by (induction xs arbitrary: st) (simp_all split: sum.splits)

lemma render_route_subnet_routes:
  "render_route (s\<lparr>subnet_routes := x\<rparr>) r st = render_route s r st"
  by (simp add: render_route_def
      cong: prod.case_cong sum.case_cong bool.case_cong option.case_cong if_cong)

lemma render_routes_subnet_routes:
  "render_routes (s\<lparr>subnet_routes := x\<rparr>) rs st = render_routes s rs st"
  by (induction rs arbitrary: st)
     (simp_all add: render_route_subnet_routes cong: sum.case_cong)

lemma get_routes_update: "get_routes (s\<lparr>subnet_routes := Some rs\<rparr>) = rs"
  by (simp add: get_routes_def)

lemma pass_upto:
  "render_subnet_routes (pre @ [s\<lparr>subnet_routes := Some rs\<rparr>]) st =
     (case render_subnet_routes pre st of
        Inl e \<Rightarrow> Inl e
      | Inr st' \<Rightarrow> render_routes s rs st')"
  by (simp add: render_subnet_routes_append get_routes_update render_routes_subnet_routes
      split: sum.splits)

lemma pass_snoc_route:
  "render_subnet_routes (pre @ [s\<lparr>subnet_routes := Some (rs @ [r])\<rparr>]) st =
     (case render_subnet_routes (pre @ [s\<lparr>subnet_routes := Some rs\<rparr>]) st of
        Inl e \<Rightarrow> Inl e
      | Inr st' \<Rightarrow> render_route s r st')"
  by (simp add: pass_upto render_routes_append split: sum.splits)

lemma render_routes_middle:
  "render_routes s (rs @ r # rs2) st =
     (case render_routes s (rs @ [r]) st of
        Inl e \<Rightarrow> Inl e
      | Inr st' \<Rightarrow> render_routes s rs2 st')"
proof -
  have "rs @ r # rs2 = (rs @ [r]) @ rs2" by simp
  show ?thesis
    unfolding \<open>rs @ r # rs2 = (rs @ [r]) @ rs2\<close> by (rule render_routes_append)
qed

lemma pass_split:
  assumes "get_routes s = rs @ r # rs2"
  shows "render_subnet_routes (pre @ s # post) st =
     (case render_subnet_routes (pre @ [s\<lparr>subnet_routes := Some (rs @ [r])\<rparr>]) st of
        Inl e \<Rightarrow> Inl e
      | Inr st' \<Rightarrow> render_subnet_routes (s\<lparr>subnet_routes := Some rs2\<rparr> # post) st')"
proof (cases "render_subnet_routes pre st")
  case (Inl e)
  then show ?thesis
    by (simp add: pass_upto render_subnet_routes_append)
next
  case (Inr st1)
  have mid: "render_routes s (get_routes s) st1 =
     (case render_routes s (rs @ [r]) st1 of
        Inl e \<Rightarrow> Inl e
      | Inr st' \<Rightarrow> render_routes s rs2 st')"
    by (subst assms) (rule render_routes_middle)
  show ?thesis
  proof (cases "render_routes s (rs @ [r]) st1")
    case (Inl e)
    with Inr mid show ?thesis
      by (simp add: pass_upto render_subnet_routes_append
          get_routes_update render_routes_subnet_routes)
  next
    case st2: (Inr st2)
    with Inr mid show ?thesis
      by (simp add: pass_upto render_subnet_routes_append
          get_routes_update render_routes_subnet_routes)
  qed
qed

lemma render_route_step:
  assumes "render_route s r (ic, rc) = Inr (ic', rc')"
  shows "(is_default_route r = Inr True \<longrightarrow>
            map_of (conf ic') ''DEFROUTE'' = Some (PBool True)
          \<and> r_conf rc' = r_conf rc \<and> last_idx rc' = last_idx rc
          \<and> (\<forall>gw. r ''gateway'' = Some gw \<longrightarrow>
                (truthy (ipv6 s) \<longrightarrow>
                   map_of (conf ic') ''IPV6_DEFAULTGW'' = Some gw \<and> has_set_default_ipv6 rc')
              \<and> (\<not> truthy (ipv6 s) \<longrightarrow>
                   map_of (conf ic') ''GATEWAY'' = Some gw \<and> has_set_default_ipv4 rc')))
       \<and> (is_default_route r = Inr False \<longrightarrow>
            ic' = ic
          \<and> last_idx rc' = last_idx rc + 1
          \<and> has_set_default_ipv4 rc' = has_set_default_ipv4 rc
          \<and> has_set_default_ipv6 rc' = has_set_default_ipv6 rc
          \<and> (\<forall>v. r ''network'' = Some v \<longrightarrow>
                map_of (r_conf rc') (''ADDRESS'' @ str_int (last_idx rc)) = Some v)
          \<and> (\<forall>v. r ''gateway'' = Some v \<longrightarrow>
                map_of (r_conf rc') (''GATEWAY'' @ str_int (last_idx rc)) = Some v)
          \<and> (\<forall>v. r ''netmask'' = Some v \<longrightarrow>
                map_of (r_conf rc') (''NETMASK'' @ str_int (last_idx rc)) = Some v)
          \<and> (\<forall>k. k \<notin> {''ADDRESS'' @ str_int (last_idx rc), ''GATEWAY'' @ str_int (last_idx rc),
                       ''NETMASK'' @ str_int (last_idx rc)} \<longrightarrow>
                map_of (r_conf rc') k = map_of (r_conf rc) k))"
proof (rule conjI)
  show "is_default_route r = Inr True \<longrightarrow>
            map_of (conf ic') ''DEFROUTE'' = Some (PBool True)
          \<and> r_conf rc' = r_conf rc \<and> last_idx rc' = last_idx rc
          \<and> (\<forall>gw. r ''gateway'' = Some gw \<longrightarrow>
                (truthy (ipv6 s) \<longrightarrow>
                   map_of (conf ic') ''IPV6_DEFAULTGW'' = Some gw \<and> has_set_default_ipv6 rc')
              \<and> (\<not> truthy (ipv6 s) \<longrightarrow>
                   map_of (conf ic') ''GATEWAY'' = Some gw \<and> has_set_default_ipv4 rc'))"
    using assms
    by (auto simp add: render_route_def iface_setitem_sel map_of_setitem
        split: if_splits option.splits)
  show "is_default_route r = Inr False \<longrightarrow>
            ic' = ic
          \<and> last_idx rc' = last_idx rc + 1
          \<and> has_set_default_ipv4 rc' = has_set_default_ipv4 rc
          \<and> has_set_default_ipv6 rc' = has_set_default_ipv6 rc
          \<and> (\<forall>v. r ''network'' = Some v \<longrightarrow>
                map_of (r_conf rc') (''ADDRESS'' @ str_int (last_idx rc)) = Some v)
          \<and> (\<forall>v. r ''gateway'' = Some v \<longrightarrow>
                map_of (r_conf rc') (''GATEWAY'' @ str_int (last_idx rc)) = Some v)
          \<and> (\<forall>v. r ''netmask'' = Some v \<longrightarrow>
                map_of (r_conf rc') (''NETMASK'' @ str_int (last_idx rc)) = Some v)
          \<and> (\<forall>k. k \<notin> {''ADDRESS'' @ str_int (last_idx rc), ''GATEWAY'' @ str_int (last_idx rc),
                       ''NETMASK'' @ str_int (last_idx rc)} \<longrightarrow>
                map_of (r_conf rc') k = map_of (r_conf rc) k)"
  proof
    assume nd: "is_default_route r = Inr False"
    from assms nd have ic: "ic' = ic"
      and rc': "rc' = rc\<lparr>last_idx := last_idx rc + 1,
                    r_conf :=
                      copy_route_keys
                        [(''gateway'', ''GATEWAY'' @ str_int (last_idx rc)),
                         (''netmask'', ''NETMASK'' @ str_int (last_idx rc)),
                         (''network'', ''ADDRESS'' @ str_int (last_idx rc))]
                        r (r_conf rc)\<rparr>"
      by (simp_all add: render_route_def)
    show "ic' = ic
          \<and> last_idx rc' = last_idx rc + 1
          \<and> has_set_default_ipv4 rc' = has_set_default_ipv4 rc
          \<and> has_set_default_ipv6 rc' = has_set_default_ipv6 rc
          \<and> (\<forall>v. r ''network'' = Some v \<longrightarrow>
                map_of (r_conf rc') (''ADDRESS'' @ str_int (last_idx rc)) = Some v)
          \<and> (\<forall>v. r ''gateway'' = Some v \<longrightarrow>
                map_of (r_conf rc') (''GATEWAY'' @ str_int (last_idx rc)) = Some v)
          \<and> (\<forall>v. r ''netmask'' = Some v \<longrightarrow>
                map_of (r_conf rc') (''NETMASK'' @ str_int (last_idx rc)) = Some v)
          \<and> (\<forall>k. k \<notin> {''ADDRESS'' @ str_int (last_idx rc), ''GATEWAY'' @ str_int (last_idx rc),
                       ''NETMASK'' @ str_int (last_idx rc)} \<longrightarrow>
                map_of (r_conf rc') k = map_of (r_conf rc) k)"
      by (auto simp add: ic rc' map_of_setitem split: option.splits)
  qed
qed

text \<open>
  C1 (as amended). Every route that the pass renders without error, wherever it stands:
  \<open>pre\<close> are the subnets before its subnet \<open>s\<close>, \<open>rs\<close> the routes of \<open>s\<close> before it, and the
  pass run up to and including the route \<open>r\<close> gives the interface \<open>ic'\<close> and the table
  \<open>rc'\<close>. Then the pass run up to \<open>r\<close> gave some \<open>ic\<close> and \<open>rc\<close>, the whole pass goes on from
  \<open>ic'\<close> and \<open>rc'\<close> with the routes after \<open>r\<close>, and: a default route sets \<open>DEFROUTE\<close> to true
  on the interface and leaves the table's dictionary and index alone; when it has a
  gateway it writes \<open>IPV6_DEFAULTGW\<close> and sets \<open>has_set_default_ipv6\<close> if the \<open>ipv6\<close> flag
  of the subnet is set, and otherwise writes \<open>GATEWAY\<close> and sets \<open>has_set_default_ipv4\<close>.
  Any other route leaves the interface alone, takes the index \<open>n = last_idx\<close>, moves
  \<open>last_idx\<close> to \<open>n + 1\<close>, stores the fields it has under \<open>ADDRESS<n>\<close>, \<open>GATEWAY<n>\<close> and
  \<open>NETMASK<n>\<close>, and changes no other key.
\<close>

theorem route_pass_effect:
  assumes "render_subnet_routes (pre @ [s\<lparr>subnet_routes := Some (rs @ [r])\<rparr>]) st
             = Inr (ic', rc')"
  shows "\<exists>ic rc.
       render_subnet_routes (pre @ [s\<lparr>subnet_routes := Some rs\<rparr>]) st = Inr (ic, rc)
     \<and> (get_routes s = rs @ r # rs2 \<longrightarrow>
          render_subnet_routes (pre @ s # post) st
            = render_subnet_routes (s\<lparr>subnet_routes := Some rs2\<rparr> # post) (ic', rc'))
     \<and> (is_default_route r = Inr True \<longrightarrow>
            map_of (conf ic') ''DEFROUTE'' = Some (PBool True)
          \<and> r_conf rc' = r_conf rc \<and> last_idx rc' = last_idx rc
          \<and> (\<forall>gw. r ''gateway'' = Some gw \<longrightarrow>
                (truthy (ipv6 s) \<longrightarrow>
                   map_of (conf ic') ''IPV6_DEFAULTGW'' = Some gw \<and> has_set_default_ipv6 rc')
              \<and> (\<not> truthy (ipv6 s) \<longrightarrow>
                   map_of (conf ic') ''GATEWAY'' = Some gw \<and> has_set_default_ipv4 rc')))
     \<and> (is_default_route r = Inr False \<longrightarrow>
            ic' = ic
          \<and> last_idx rc' = last_idx rc + 1
          \<and> has_set_default_ipv4 rc' = has_set_default_ipv4 rc
          \<and> has_set_default_ipv6 rc' = has_set_default_ipv6 rc
          \<and> (\<forall>v. r ''network'' = Some v \<longrightarrow>
                map_of (r_conf rc') (''ADDRESS'' @ str_int (last_idx rc)) = Some v)
          \<and> (\<forall>v. r ''gateway'' = Some v \<longrightarrow>
                map_of (r_conf rc') (''GATEWAY'' @ str_int (last_idx rc)) = Some v)
          \<and> (\<forall>v. r ''netmask'' = Some v \<longrightarrow>
                map_of (r_conf rc') (''NETMASK'' @ str_int (last_idx rc)) = Some v)
          \<and> (\<forall>k. k \<notin> {''ADDRESS'' @ str_int (last_idx rc), ''GATEWAY'' @ str_int (last_idx rc),
                       ''NETMASK'' @ str_int (last_idx rc)} \<longrightarrow>
                map_of (r_conf rc') k = map_of (r_conf rc) k))"
proof -
  from assms obtain ic rc where
    before: "render_subnet_routes (pre @ [s\<lparr>subnet_routes := Some rs\<rparr>]) st = Inr (ic, rc)"
    and step: "render_route s r (ic, rc) = Inr (ic', rc')"
    unfolding pass_snoc_route
    by (cases "render_subnet_routes (pre @ [s\<lparr>subnet_routes := Some rs\<rparr>]) st") auto
  have rest: "get_routes s = rs @ r # rs2 \<longrightarrow>
          render_subnet_routes (pre @ s # post) st
            = render_subnet_routes (s\<lparr>subnet_routes := Some rs2\<rparr> # post) (ic', rc')"
  proof
    assume g: "get_routes s = rs @ r # rs2"
    show "render_subnet_routes (pre @ s # post) st
            = render_subnet_routes (s\<lparr>subnet_routes := Some rs2\<rparr> # post) (ic', rc')"
      by (subst pass_split [OF g]) (simp only: assms sum.case)
  qed
  note fx = render_route_step [OF step]
  show ?thesis
  proof (intro exI conjI)
    show "render_subnet_routes (pre @ [s\<lparr>subnet_routes := Some rs\<rparr>]) st = Inr (ic, rc)"
      by (rule before)
  qed (rule rest, rule conjunct1 [OF fx], rule conjunct2 [OF fx])
qed

text \<open>
  C2 (as amended). When the pass reaches a default route in a subnet that carries the
  flag of a family (\<open>ipv4\<close> or \<open>ipv6\<close>) and the route table has already recorded a default
  route of that family, the whole pass fails with \<open>DuplicateDefaultRoute\<close> for the
  interface: the remaining routes and subnets are not rendered and the error is the
  result of \<open>_render_subnet_routes\<close>.
\<close>

theorem duplicate_default_route_fails:
  assumes "render_subnet_routes pre st = Inr st1"
    and "get_routes s = rs1 @ r # rs2"
    and "render_routes s rs1 st1 = Inr (ic, rc)"
    and "is_default_route r = Inr True"
    and "(truthy (ipv4 s) \<and> has_set_default_ipv4 rc) \<or> (truthy (ipv6 s) \<and> has_set_default_ipv6 rc)"
  shows "render_subnet_routes (pre @ s # post) st = Inl (DuplicateDefaultRoute (iface_name ic))"
proof -
  have "render_route s r (ic, rc) = Inl (DuplicateDefaultRoute (iface_name ic))"
    using assms(4,5) by (auto simp add: render_route_def)
  then have "render_routes s (get_routes s) st1 = Inl (DuplicateDefaultRoute (iface_name ic))"
    using assms(2,3) by (simp add: render_routes_append)
  then show ?thesis
    using assms(1) by (simp add: render_subnet_routes_append)
qed


subsection \<open>The route pass on the example inputs\<close>

lemma str_int_small:
  "str_int 0 = ''0''" "str_int 1 = ''1''" "str_int 2 = ''2''" "str_int 3 = ''3''"
  by (simp_all add: str_int_def str_nat.simps)

lemma example_flags:
  "truthy (ipv4 (static_subnet4 a m rs))" "\<not> truthy (ipv6 (static_subnet4 a m rs))"
  "truthy (ipv6 (static_subnet6 a m rs))" "\<not> truthy (ipv4 (static_subnet6 a m rs))"
  "\<not> truthy (ipv4 (static_subnet a m rs))" "\<not> truthy (ipv6 (static_subnet a m rs))"
  "get_routes (static_subnet4 a m rs) = rs" "get_routes (static_subnet6 a m rs) = rs"
  "get_routes (static_subnet a m rs) = rs"
  by (simp_all add: static_subnet4_def static_subnet6_def static_subnet_def get_routes_def)

lemma example_gateways:
  "default_route4 gw ''gateway'' = Some (PStr gw)"
  "default_route6 gw ''gateway'' = Some (PStr gw)"
  "default_route4_no_gateway ''gateway'' = None"
  "net_route n m gw ''network'' = Some (PStr n)"
  "net_route n m gw ''netmask'' = Some (PStr m)"
  "net_route n m gw ''gateway'' = Some (PStr gw)"
  by (simp_all add: default_route4_def default_route6_def default_route4_no_gateway_def
      net_route_def)

lemma eth0_routes_fields:
  "last_idx eth0_routes = 1" "r_conf eth0_routes = []"
  "\<not> has_set_default_ipv4 eth0_routes" "\<not> has_set_default_ipv6 eth0_routes"
  "route_name eth0_routes = ''eth0''" "r_base_sysconf_dir eth0_routes = ''/etc/sysconfig''"
  by (simp_all add: eth0_routes_def new_route_def)

lemma eth0_fields:
  "conf eth0 = [(''TYPE'', PStr ''Ethernet''), (''DEVICE'', PStr ''eth0'')]"
  "children eth0 = []" "routes eth0 = eth0_routes" "kind eth0 = ''ethernet''"
  "iface_name eth0 = ''eth0''" "base_sysconf_dir eth0 = ''/etc/sysconfig''"
  by (simp_all add: eth0_def)

lemma update_routes_example:
  "(static_subnet4 a m rs)\<lparr>subnet_routes := Some rs'\<rparr> = static_subnet4 a m rs'"
  "(static_subnet6 a m rs)\<lparr>subnet_routes := Some rs'\<rparr> = static_subnet6 a m rs'"
  "(static_subnet a m rs)\<lparr>subnet_routes := Some rs'\<rparr> = static_subnet a m rs'"
  by (simp_all add: static_subnet4_def static_subnet6_def static_subnet_def)

lemma render_example_routes:
  "\<not> has_set_default_ipv4 rc \<Longrightarrow>
   render_route (static_subnet4 a m rs) (default_route4 gw) (ic, rc)
     = Inr (iface_setitem ''GATEWAY'' (PStr gw) (iface_setitem ''DEFROUTE'' (PBool True) ic),
            rc\<lparr>has_set_default_ipv4 := True\<rparr>)"
  "\<not> has_set_default_ipv6 rc \<Longrightarrow>
   render_route (static_subnet6 a m rs) (default_route6 gw) (ic, rc)
     = Inr (iface_setitem ''IPV6_DEFAULTGW'' (PStr gw)
              (iface_setitem ''DEFROUTE'' (PBool True) ic),
            rc\<lparr>has_set_default_ipv6 := True\<rparr>)"
  "render_route (static_subnet a m rs) (default_route4 gw) (ic, rc)
     = Inr (iface_setitem ''GATEWAY'' (PStr gw) (iface_setitem ''DEFROUTE'' (PBool True) ic),
            rc\<lparr>has_set_default_ipv4 := True\<rparr>)"
  "render_route (static_subnet a m rs) (default_route6 gw) (ic, rc)
     = Inr (iface_setitem ''GATEWAY'' (PStr gw) (iface_setitem ''DEFROUTE'' (PBool True) ic),
            rc\<lparr>has_set_default_ipv4 := True\<rparr>)"
  "\<not> has_set_default_ipv4 rc \<Longrightarrow>
   render_route (static_subnet4 a m rs) default_route4_no_gateway (ic, rc)
     = Inr (iface_setitem ''DEFROUTE'' (PBool True) ic, rc)"
  "render_route s (net_route ''10.1.0.0'' ''255.255.0.0'' ''10.0.0.254'') (ic, eth0_routes)
     = Inr (ic, eth0_one_route)"
  by (simp_all add: render_route_def is_default_route_examples example_flags example_gateways
      eth0_routes_fields eth0_one_route_def str_int_small setitem_def)

theorem route_pass_effect_witness:
  "render_subnet_routes
      ([] @ [(static_subnet4 ''10.0.0.5'' (Some (PStr ''255.255.255.0''))
                [net_route ''10.1.0.0'' ''255.255.0.0'' ''10.0.0.254'',
                 default_route4 ''10.0.0.1''])
             \<lparr>subnet_routes :=
                Some ([net_route ''10.1.0.0'' ''255.255.0.0'' ''10.0.0.254'']
                      @ [default_route4 ''10.0.0.1''])\<rparr>])
      (eth0, eth0_routes)
     = Inr (iface_setitem ''GATEWAY'' (PStr ''10.0.0.1'')
              (iface_setitem ''DEFROUTE'' (PBool True) eth0),
            eth0_one_route\<lparr>has_set_default_ipv4 := True\<rparr>)
   \<and> render_subnet_routes
      ([] @ [(static_subnet4 ''10.0.0.5'' (Some (PStr ''255.255.255.0''))
                [net_route ''10.1.0.0'' ''255.255.0.0'' ''10.0.0.254'',
                 default_route4 ''10.0.0.1''])
             \<lparr>subnet_routes :=
                Some [net_route ''10.1.0.0'' ''255.255.0.0'' ''10.0.0.254'']\<rparr>])
      (eth0, eth0_routes)
     = Inr (eth0, eth0_one_route)
   \<and> render_subnet_routes
      ([] @ static_subnet4 ''10.0.0.5'' (Some (PStr ''255.255.255.0''))
                [net_route ''10.1.0.0'' ''255.255.0.0'' ''10.0.0.254'',
                 default_route4 ''10.0.0.1''] # [])
      (eth0, eth0_routes)
     = Inr (iface_setitem ''GATEWAY'' (PStr ''10.0.0.1'')
              (iface_setitem ''DEFROUTE'' (PBool True) eth0),
            eth0_one_route\<lparr>has_set_default_ipv4 := True\<rparr>)
   \<and> is_default_route (default_route4 ''10.0.0.1'') = Inr True
   \<and> map_of (conf (iface_setitem ''GATEWAY'' (PStr ''10.0.0.1'')
              (iface_setitem ''DEFROUTE'' (PBool True) eth0))) ''DEFROUTE'' = Some (PBool True)
   \<and> map_of (conf (iface_setitem ''GATEWAY'' (PStr ''10.0.0.1'')
              (iface_setitem ''DEFROUTE'' (PBool True) eth0))) ''GATEWAY''
       = Some (PStr ''10.0.0.1'')
   \<and> has_set_default_ipv4 (eth0_one_route\<lparr>has_set_default_ipv4 := True\<rparr>)
   \<and> r_conf (eth0_one_route\<lparr>has_set_default_ipv4 := True\<rparr>) = r_conf eth0_one_route
   \<and> last_idx (eth0_one_route\<lparr>has_set_default_ipv4 := True\<rparr>) = last_idx eth0_one_route
   \<and> render_subnet_routes
      ([] @ [(static_subnet6 ''2001:db8::5'' (Some (PInt 64)) [default_route6 ''2001:db8::1''])
             \<lparr>subnet_routes := Some ([] @ [default_route6 ''2001:db8::1''])\<rparr>])
      (eth0, eth0_routes)
     = Inr (iface_setitem ''IPV6_DEFAULTGW'' (PStr ''2001:db8::1'')
              (iface_setitem ''DEFROUTE'' (PBool True) eth0),
            eth0_routes\<lparr>has_set_default_ipv6 := True\<rparr>)
   \<and> is_default_route (default_route6 ''2001:db8::1'') = Inr True
   \<and> map_of (conf (iface_setitem ''IPV6_DEFAULTGW'' (PStr ''2001:db8::1'')
              (iface_setitem ''DEFROUTE'' (PBool True) eth0))) ''IPV6_DEFAULTGW''
       = Some (PStr ''2001:db8::1'')
   \<and> has_set_default_ipv6 (eth0_routes\<lparr>has_set_default_ipv6 := True\<rparr>)
   \<and> render_subnet_routes
      ([] @ [(static_subnet4 ''10.0.0.5'' (Some (PStr ''255.255.255.0''))
                [net_route ''10.1.0.0'' ''255.255.0.0'' ''10.0.0.254'',
                 default_route4 ''10.0.0.1''])
             \<lparr>subnet_routes :=
                Some ([] @ [net_route ''10.1.0.0'' ''255.255.0.0'' ''10.0.0.254''])\<rparr>])
      (eth0, eth0_routes)
     = Inr (eth0, eth0_one_route)
   \<and> is_default_route (net_route ''10.1.0.0'' ''255.255.0.0'' ''10.0.0.254'') = Inr False
   \<and> last_idx eth0_routes = 1
   \<and> last_idx eth0_one_route = last_idx eth0_routes + 1
   \<and> map_of (r_conf eth0_one_route) (''ADDRESS'' @ str_int (last_idx eth0_routes))
       = Some (PStr ''10.1.0.0'')
   \<and> map_of (r_conf eth0_one_route) (''GATEWAY'' @ str_int (last_idx eth0_routes))
       = Some (PStr ''10.0.0.254'')
   \<and> map_of (r_conf eth0_one_route) (''NETMASK'' @ str_int (last_idx eth0_routes))
       = Some (PStr ''255.255.0.0'')"
proof -
  let ?n = "net_route ''10.1.0.0'' ''255.255.0.0'' ''10.0.0.254''"
  let ?d4 = "default_route4 ''10.0.0.1''"
  let ?d6 = "default_route6 ''2001:db8::1''"
  let ?s4 = "static_subnet4 ''10.0.0.5'' (Some (PStr ''255.255.255.0'')) [?n, ?d4]"
  let ?s6 = "static_subnet6 ''2001:db8::5'' (Some (PInt 64)) [?d6]"
  let ?ic4 = "iface_setitem ''GATEWAY'' (PStr ''10.0.0.1'')
              (iface_setitem ''DEFROUTE'' (PBool True) eth0)"
  let ?ic6 = "iface_setitem ''IPV6_DEFAULTGW'' (PStr ''2001:db8::1'')
              (iface_setitem ''DEFROUTE'' (PBool True) eth0)"
  have f1: "\<not> has_set_default_ipv4 eth0_one_route" "\<not> has_set_default_ipv6 eth0_one_route"
    by (simp_all add: eth0_one_route_def eth0_routes_fields)
  have b4: "render_subnet_routes ([] @ [?s4\<lparr>subnet_routes := Some [?n]\<rparr>]) (eth0, eth0_routes)
        = Inr (eth0, eth0_one_route)"
    by (simp add: update_routes_example example_flags render_example_routes)
  have a4: "render_subnet_routes ([] @ [?s4\<lparr>subnet_routes := Some ([?n] @ [?d4])\<rparr>])
          (eth0, eth0_routes)
        = Inr (?ic4, eth0_one_route\<lparr>has_set_default_ipv4 := True\<rparr>)"
    by (simp add: update_routes_example example_flags render_example_routes f1)
  have a6: "render_subnet_routes ([] @ [?s6\<lparr>subnet_routes := Some ([] @ [?d6])\<rparr>])
          (eth0, eth0_routes)
        = Inr (?ic6, eth0_routes\<lparr>has_set_default_ipv6 := True\<rparr>)"
    by (simp add: update_routes_example example_flags render_example_routes eth0_routes_fields)
  have an: "render_subnet_routes ([] @ [?s4\<lparr>subnet_routes := Some ([] @ [?n])\<rparr>])
          (eth0, eth0_routes)
        = Inr (eth0, eth0_one_route)"
    by (simp add: update_routes_example example_flags render_example_routes)
  have d: "is_default_route ?d4 = Inr True" "is_default_route ?d6 = Inr True"
    "is_default_route ?n = Inr False"
    by (rule is_default_route_examples)+
  have g: "?d4 ''gateway'' = Some (PStr ''10.0.0.1'')"
    "?d6 ''gateway'' = Some (PStr ''2001:db8::1'')"
    "?n ''network'' = Some (PStr ''10.1.0.0'')"
    "?n ''gateway'' = Some (PStr ''10.0.0.254'')"
    "?n ''netmask'' = Some (PStr ''255.255.0.0'')"
    by (rule example_gateways)+
  have fl: "\<not> truthy (ipv6 ?s4)" "truthy (ipv6 ?s6)"
    by (rule example_flags)+
  have gr: "get_routes ?s4 = [?n] @ ?d4 # []"
    by (simp add: example_flags)
  have i1: "last_idx eth0_routes = 1"
    by (rule eth0_routes_fields)
  note t4 = route_pass_effect [OF a4, of "[]" "[]"]
  from t4 obtain ic rc where
    e4: "render_subnet_routes ([] @ [?s4\<lparr>subnet_routes := Some [?n]\<rparr>]) (eth0, eth0_routes)
           = Inr (ic, rc)"
    and r4: "get_routes ?s4 = [?n] @ ?d4 # [] \<longrightarrow>
          render_subnet_routes ([] @ ?s4 # []) (eth0, eth0_routes)
            = render_subnet_routes (?s4\<lparr>subnet_routes := Some []\<rparr> # [])
                (?ic4, eth0_one_route\<lparr>has_set_default_ipv4 := True\<rparr>)"
    and c4: "is_default_route ?d4 = Inr True \<longrightarrow>
            map_of (conf ?ic4) ''DEFROUTE'' = Some (PBool True)
          \<and> r_conf (eth0_one_route\<lparr>has_set_default_ipv4 := True\<rparr>) = r_conf rc
          \<and> last_idx (eth0_one_route\<lparr>has_set_default_ipv4 := True\<rparr>) = last_idx rc
          \<and> (\<forall>gw. ?d4 ''gateway'' = Some gw \<longrightarrow>
                (truthy (ipv6 ?s4) \<longrightarrow>
                   map_of (conf ?ic4) ''IPV6_DEFAULTGW'' = Some gw
                 \<and> has_set_default_ipv6 (eth0_one_route\<lparr>has_set_default_ipv4 := True\<rparr>))
              \<and> (\<not> truthy (ipv6 ?s4) \<longrightarrow>
                   map_of (conf ?ic4) ''GATEWAY'' = Some gw
                 \<and> has_set_default_ipv4 (eth0_one_route\<lparr>has_set_default_ipv4 := True\<rparr>)))"
    apply (elim exE conjE)
    apply (rule that)
      apply assumption+
    done
  have rc4: "rc = eth0_one_route"
    using e4 unfolding b4 by simp
  have "render_subnet_routes (?s4\<lparr>subnet_routes := Some []\<rparr> # [])
                (?ic4, eth0_one_route\<lparr>has_set_default_ipv4 := True\<rparr>)
        = Inr (?ic4, eth0_one_route\<lparr>has_set_default_ipv4 := True\<rparr>)"
    by (simp add: get_routes_update)
  with mp [OF r4 gr]
  have full4: "render_subnet_routes ([] @ ?s4 # []) (eth0, eth0_routes)
        = Inr (?ic4, eth0_one_route\<lparr>has_set_default_ipv4 := True\<rparr>)"
    by (rule trans)
  note x4 = mp [OF c4 d(1), unfolded rc4]
  note y4 = mp [OF conjunct2 [OF mp [OF spec [OF conjunct2 [OF conjunct2 [OF conjunct2 [OF x4]]]]
                 g(1)]] fl(1)]
  note p4 = conjunct1 [OF x4] conjunct1 [OF conjunct2 [OF x4]]
    conjunct1 [OF conjunct2 [OF conjunct2 [OF x4]]] conjunct1 [OF y4] conjunct2 [OF y4]
  note t6 = route_pass_effect [OF a6, of "[]" "[]"]
  from t6 obtain ic6 rc6 where
    e6: "render_subnet_routes ([] @ [?s6\<lparr>subnet_routes := Some []\<rparr>]) (eth0, eth0_routes)
           = Inr (ic6, rc6)"
    and c6: "is_default_route ?d6 = Inr True \<longrightarrow>
            map_of (conf ?ic6) ''DEFROUTE'' = Some (PBool True)
          \<and> r_conf (eth0_routes\<lparr>has_set_default_ipv6 := True\<rparr>) = r_conf rc6
          \<and> last_idx (eth0_routes\<lparr>has_set_default_ipv6 := True\<rparr>) = last_idx rc6
          \<and> (\<forall>gw. ?d6 ''gateway'' = Some gw \<longrightarrow>
                (truthy (ipv6 ?s6) \<longrightarrow>
                   map_of (conf ?ic6) ''IPV6_DEFAULTGW'' = Some gw
                 \<and> has_set_default_ipv6 (eth0_routes\<lparr>has_set_default_ipv6 := True\<rparr>))
              \<and> (\<not> truthy (ipv6 ?s6) \<longrightarrow>
                   map_of (conf ?ic6) ''GATEWAY'' = Some gw
                 \<and> has_set_default_ipv4 (eth0_routes\<lparr>has_set_default_ipv6 := True\<rparr>)))"
    apply (elim exE conjE)
    apply (rule that)
      apply assumption+
    done
  note x6 = mp [OF c6 d(2)]
  note y6 = mp [OF conjunct1 [OF mp [OF spec [OF conjunct2 [OF conjunct2 [OF conjunct2 [OF x6]]]]
                 g(2)]] fl(2)]
  note p6 = conjunct1 [OF y6] conjunct2 [OF y6]
  note tn = route_pass_effect [OF an, of "[]" "[]"]
  from tn obtain icn rcn where
    en: "render_subnet_routes ([] @ [?s4\<lparr>subnet_routes := Some []\<rparr>]) (eth0, eth0_routes)
           = Inr (icn, rcn)"
    and cn: "is_default_route ?n = Inr False \<longrightarrow>
            eth0 = icn
          \<and> last_idx eth0_one_route = last_idx rcn + 1
          \<and> has_set_default_ipv4 eth0_one_route = has_set_default_ipv4 rcn
          \<and> has_set_default_ipv6 eth0_one_route = has_set_default_ipv6 rcn
          \<and> (\<forall>v. ?n ''network'' = Some v \<longrightarrow>
                map_of (r_conf eth0_one_route) (''ADDRESS'' @ str_int (last_idx rcn)) = Some v)
          \<and> (\<forall>v. ?n ''gateway'' = Some v \<longrightarrow>
                map_of (r_conf eth0_one_route) (''GATEWAY'' @ str_int (last_idx rcn)) = Some v)
          \<and> (\<forall>v. ?n ''netmask'' = Some v \<longrightarrow>
                map_of (r_conf eth0_one_route) (''NETMASK'' @ str_int (last_idx rcn)) = Some v)
          \<and> (\<forall>k. k \<notin> {''ADDRESS'' @ str_int (last_idx rcn), ''GATEWAY'' @ str_int (last_idx rcn),
                       ''NETMASK'' @ str_int (last_idx rcn)} \<longrightarrow>
                map_of (r_conf eth0_one_route) k = map_of (r_conf rcn) k)"
    apply (elim exE conjE)
    apply (rule that)
      apply assumption+
    done
  have rcn: "rcn = eth0_routes"
    using en by (simp add: get_routes_update)
  note xn = mp [OF cn d(3), unfolded rcn]
  note xn2 = conjunct2 [OF conjunct2 [OF conjunct2 [OF conjunct2 [OF xn]]]]
  note pn = conjunct1 [OF conjunct2 [OF xn]]
    mp [OF spec [OF conjunct1 [OF xn2]] g(3)]
    mp [OF spec [OF conjunct1 [OF conjunct2 [OF xn2]]] g(4)]
    mp [OF spec [OF conjunct1 [OF conjunct2 [OF conjunct2 [OF xn2]]]] g(5)]
  show ?thesis
    by (intro conjI a4 b4 full4 d p4 a6 p6 an i1 pn)
qed

theorem default_route_recorded_by_shape_counterexample:
  "is_default_route default_route4_no_gateway = Inr True
   \<and> render_subnet_routes
        [static_subnet4 ''10.0.0.5'' (Some (PStr ''255.255.255.0'')) [default_route4_no_gateway]]
        (eth0, eth0_routes)
      = Inr (iface_setitem ''DEFROUTE'' (PBool True) eth0, eth0_routes)
   \<and> map_of (conf (iface_setitem ''DEFROUTE'' (PBool True) eth0)) ''GATEWAY'' = None
   \<and> \<not> has_set_default_ipv4 eth0_routes
   \<and> is_default_route (default_route6 ''2001:db8::1'') = Inr True
   \<and> render_subnet_routes
        [static_subnet ''2001:db8::5'' (Some (PInt 64)) [default_route6 ''2001:db8::1'']]
        (eth0, eth0_routes)
      = Inr (iface_setitem ''GATEWAY'' (PStr ''2001:db8::1'')
               (iface_setitem ''DEFROUTE'' (PBool True) eth0),
             eth0_routes\<lparr>has_set_default_ipv4 := True\<rparr>)
   \<and> map_of (conf (iface_setitem ''GATEWAY'' (PStr ''2001:db8::1'')
               (iface_setitem ''DEFROUTE'' (PBool True) eth0))) ''IPV6_DEFAULTGW'' = None
   \<and> \<not> has_set_default_ipv6 (eth0_routes\<lparr>has_set_default_ipv4 := True\<rparr>)
   \<and> is_default_route (default_route4 ''10.0.0.1'') = Inr True
   \<and> render_subnet_routes
        [static_subnet6 ''2001:db8::5'' (Some (PInt 64)) [default_route4 ''10.0.0.1'']]
        (eth0, eth0_routes)
      = Inr (iface_setitem ''IPV6_DEFAULTGW'' (PStr ''10.0.0.1'')
               (iface_setitem ''DEFROUTE'' (PBool True) eth0),
             eth0_routes\<lparr>has_set_default_ipv6 := True\<rparr>)
   \<and> map_of (conf (iface_setitem ''IPV6_DEFAULTGW'' (PStr ''10.0.0.1'')
               (iface_setitem ''DEFROUTE'' (PBool True) eth0))) ''GATEWAY'' = None
   \<and> \<not> has_set_default_ipv4 (eth0_routes\<lparr>has_set_default_ipv6 := True\<rparr>)"
proof -
  have a: "render_subnet_routes
        [static_subnet4 ''10.0.0.5'' (Some (PStr ''255.255.255.0'')) [default_route4_no_gateway]]
        (eth0, eth0_routes)
      = Inr (iface_setitem ''DEFROUTE'' (PBool True) eth0, eth0_routes)"
    by (simp add: example_flags render_example_routes eth0_routes_fields)
  have b: "render_subnet_routes
        [static_subnet ''2001:db8::5'' (Some (PInt 64)) [default_route6 ''2001:db8::1'']]
        (eth0, eth0_routes)
      = Inr (iface_setitem ''GATEWAY'' (PStr ''2001:db8::1'')
               (iface_setitem ''DEFROUTE'' (PBool True) eth0),
             eth0_routes\<lparr>has_set_default_ipv4 := True\<rparr>)"
    by (simp add: example_flags render_example_routes)
  have c: "render_subnet_routes
        [static_subnet6 ''2001:db8::5'' (Some (PInt 64)) [default_route4 ''10.0.0.1'']]
        (eth0, eth0_routes)
      = Inr (iface_setitem ''IPV6_DEFAULTGW'' (PStr ''10.0.0.1'')
               (iface_setitem ''DEFROUTE'' (PBool True) eth0),
             eth0_routes\<lparr>has_set_default_ipv6 := True\<rparr>)"
    by (simp add: render_route_def is_default_route_examples example_flags example_gateways
        eth0_routes_fields)
  have m: "map_of (conf (iface_setitem ''DEFROUTE'' (PBool True) eth0)) ''GATEWAY'' = None"
    "map_of (conf (iface_setitem ''GATEWAY'' (PStr ''2001:db8::1'')
               (iface_setitem ''DEFROUTE'' (PBool True) eth0))) ''IPV6_DEFAULTGW'' = None"
    "map_of (conf (iface_setitem ''IPV6_DEFAULTGW'' (PStr ''10.0.0.1'')
               (iface_setitem ''DEFROUTE'' (PBool True) eth0))) ''GATEWAY'' = None"
    by (simp_all add: iface_setitem_sel map_of_setitem eth0_fields)
  have f: "\<not> has_set_default_ipv4 eth0_routes"
    "\<not> has_set_default_ipv6 (eth0_routes\<lparr>has_set_default_ipv4 := True\<rparr>)"
    "\<not> has_set_default_ipv4 (eth0_routes\<lparr>has_set_default_ipv6 := True\<rparr>)"
    by (simp_all add: eth0_routes_fields)
  show ?thesis
    by (intro conjI a b c m f is_default_route_examples)
qed

theorem duplicate_default_route_fails_witness:
  "render_subnet_routes [] (eth0, eth0_routes) = Inr (eth0, eth0_routes)
   \<and> get_routes (static_subnet4 ''10.0.0.5'' (Some (PStr ''255.255.255.0''))
        [default_route4 ''10.0.0.1'', default_route4 ''10.0.0.2''])
      = [default_route4 ''10.0.0.1''] @ default_route4 ''10.0.0.2'' # []
   \<and> render_routes (static_subnet4 ''10.0.0.5'' (Some (PStr ''255.255.255.0''))
        [default_route4 ''10.0.0.1'', default_route4 ''10.0.0.2''])
        [default_route4 ''10.0.0.1''] (eth0, eth0_routes)
      = Inr (iface_setitem ''GATEWAY'' (PStr ''10.0.0.1'')
               (iface_setitem ''DEFROUTE'' (PBool True) eth0),
             eth0_routes\<lparr>has_set_default_ipv4 := True\<rparr>)
   \<and> is_default_route (default_route4 ''10.0.0.2'') = Inr True
   \<and> truthy (ipv4 (static_subnet4 ''10.0.0.5'' (Some (PStr ''255.255.255.0''))
        [default_route4 ''10.0.0.1'', default_route4 ''10.0.0.2'']))
   \<and> has_set_default_ipv4 (eth0_routes\<lparr>has_set_default_ipv4 := True\<rparr>)
   \<and> render_subnet_routes
        ([] @ static_subnet4 ''10.0.0.5'' (Some (PStr ''255.255.255.0''))
                [default_route4 ''10.0.0.1'', default_route4 ''10.0.0.2''] # [])
        (eth0, eth0_routes)
      = Inl (DuplicateDefaultRoute ''eth0'')"
proof -
  let ?s = "static_subnet4 ''10.0.0.5'' (Some (PStr ''255.255.255.0''))
        [default_route4 ''10.0.0.1'', default_route4 ''10.0.0.2'']"
  let ?ic = "iface_setitem ''GATEWAY'' (PStr ''10.0.0.1'')
               (iface_setitem ''DEFROUTE'' (PBool True) eth0)"
  let ?rc = "eth0_routes\<lparr>has_set_default_ipv4 := True\<rparr>"
  have h1: "render_subnet_routes [] (eth0, eth0_routes) = Inr (eth0, eth0_routes)"
    by simp
  have h2: "get_routes ?s = [default_route4 ''10.0.0.1''] @ default_route4 ''10.0.0.2'' # []"
    by (simp add: example_flags)
  have h3: "render_routes ?s [default_route4 ''10.0.0.1''] (eth0, eth0_routes) = Inr (?ic, ?rc)"
    by (simp add: render_route_def is_default_route_examples example_flags example_gateways
        eth0_routes_fields)
  have h4: "is_default_route (default_route4 ''10.0.0.2'') = Inr True"
    by (rule is_default_route_examples)
  have h5: "(truthy (ipv4 ?s) \<and> has_set_default_ipv4 ?rc)
            \<or> (truthy (ipv6 ?s) \<and> has_set_default_ipv6 ?rc)"
    by (simp add: example_flags)
  have "render_subnet_routes ([] @ ?s # []) (eth0, eth0_routes)
          = Inl (DuplicateDefaultRoute (iface_name ?ic))"
    by (rule duplicate_default_route_fails [OF h1 h2 h3 h4 h5])
  then have "render_subnet_routes ([] @ ?s # []) (eth0, eth0_routes)
          = Inl (DuplicateDefaultRoute ''eth0'')"
    by (simp add: iface_setitem_sel eth0_fields)
  with h1 h2 h3 h4 show ?thesis
    by (simp add: example_flags)
qed

theorem duplicate_default_route_unflagged_counterexample:
  "render_routes (static_subnet ''10.0.0.5'' (Some (PStr ''255.255.255.0''))
        [default_route4 ''10.0.0.1'', default_route4 ''10.0.0.2''])
        [default_route4 ''10.0.0.1''] (eth0, eth0_routes)
      = Inr (iface_setitem ''GATEWAY'' (PStr ''10.0.0.1'')
               (iface_setitem ''DEFROUTE'' (PBool True) eth0),
             eth0_routes\<lparr>has_set_default_ipv4 := True\<rparr>)
   \<and> has_set_default_ipv4 (eth0_routes\<lparr>has_set_default_ipv4 := True\<rparr>)
   \<and> is_default_route (default_route4 ''10.0.0.2'') = Inr True
   \<and> render_subnet_routes
        [static_subnet ''10.0.0.5'' (Some (PStr ''255.255.255.0''))
           [default_route4 ''10.0.0.1'', default_route4 ''10.0.0.2'']]
        (eth0, eth0_routes)
      = Inr (iface_setitem ''GATEWAY'' (PStr ''10.0.0.2'')
               (iface_setitem ''DEFROUTE'' (PBool True)
                  (iface_setitem ''GATEWAY'' (PStr ''10.0.0.1'')
                     (iface_setitem ''DEFROUTE'' (PBool True) eth0))),
             eth0_routes\<lparr>has_set_default_ipv4 := True\<rparr>)"
  by (simp add: render_route_def is_default_route_examples example_flags example_gateways
      eth0_routes_fields)


section \<open>Properties of NetInterface\<close>

lemma map_of_drop_key: "map_of (drop_key k c) = (map_of c)(k := None)"
  by (simp add: drop_key_def delete_conv')

lemma set_kind_Inr:
  "set_kind k n = Inr n' \<Longrightarrow>
     (\<exists>label. map_of iface_types k = Some label \<and>
        n' = NetInterface (setitem ''TYPE'' (PStr label) (conf n)) (children n) (routes n) k
               (iface_name n) (base_sysconf_dir n))"
  by (auto simp add: set_kind_def split: option.splits)

lemma new_net_interface_Inr:
  "new_net_interface nm base k = Inr n \<Longrightarrow>
     (\<exists>label. map_of iface_types k = Some label \<and>
        n = NetInterface (setitem ''DEVICE'' (PStr nm) (setitem ''TYPE'' (PStr label) []))
              [] (new_route nm base) k nm base)"
  by (auto simp add: new_net_interface_def set_kind_def iface_setitem_def split: option.splits)

lemma reachable_mirrored:
  "iface_reachable n \<Longrightarrow>
     map_of (conf n) ''TYPE'' = map_option PStr (map_of iface_types (kind n))
     \<and> map_of iface_types (kind n) \<noteq> None
     \<and> map_of (conf n) ''DEVICE'' = Some (PStr (iface_name n))"
proof (induction rule: iface_reachable.induct)
  case (created nm base k n)
  then show ?case
    by (auto dest!: new_net_interface_Inr simp add: map_of_setitem)
next
  case (kind_set n k n')
  then show ?case
    by (auto dest!: set_kind_Inr simp add: map_of_setitem)
next
  case (name_set n nm)
  then show ?case
    by (auto simp add: set_name_def map_of_setitem)
next
  case (copied n cc cr n')
  then show ?case
    by (auto dest!: new_net_interface_Inr
        simp add: iface_copy_def split: sum.splits)
next
  case (parts_changed n chs rt)
  then show ?case by simp
next
  case (item_set n k v)
  then show ?case
    by (simp add: iface_setitem_sel map_of_setitem)
next
  case (item_dropped n k)
  then show ?case
    by (simp add: iface_drop_def map_of_drop_key)
qed

text \<open>
  C9 (as amended). On every interface that the constructor, the two setters, \<open>copy\<close>,
  changes of the children or the route table, and dictionary writes or removals of keys
  other than \<open>TYPE\<close> and \<open>DEVICE\<close> lead to, the kind is one of \<open>ethernet\<close>, \<open>bond\<close>,
  \<open>bridge\<close>, \<open>TYPE\<close> is the label of the kind and \<open>DEVICE\<close> is the name. Setting a kind
  outside the three fails with \<open>InvalidKind\<close>; setting one of the three stores the kind
  and its label (\<open>Ethernet\<close>, \<open>Bond\<close>, \<open>Bridge\<close>) under \<open>TYPE\<close> in the same step and leaves
  the name and \<open>DEVICE\<close> alone; setting the name stores it and writes it under \<open>DEVICE\<close>
  in the same step and leaves the kind and \<open>TYPE\<close> alone.
\<close>

theorem kind_and_name_in_lock_step:
  "(iface_reachable n \<longrightarrow>
      kind n \<in> {''ethernet'', ''bond'', ''bridge''}
    \<and> map_of (conf n) ''TYPE'' = map_option PStr (map_of iface_types (kind n))
    \<and> map_of (conf n) ''DEVICE'' = Some (PStr (iface_name n)))
   \<and> (k \<notin> {''ethernet'', ''bond'', ''bridge''} \<longrightarrow> set_kind k m = Inl (InvalidKind k))
   \<and> (k \<in> {''ethernet'', ''bond'', ''bridge''} \<longrightarrow>
        (\<exists>m'. set_kind k m = Inr m' \<and> kind m' = k \<and> iface_name m' = iface_name m
           \<and> map_of (conf m') ''TYPE'' = map_option PStr (map_of iface_types k)
           \<and> map_of (conf m') ''DEVICE'' = map_of (conf m) ''DEVICE''))
   \<and> map_of iface_types ''ethernet'' = Some ''Ethernet''
   \<and> map_of iface_types ''bond'' = Some ''Bond''
   \<and> map_of iface_types ''bridge'' = Some ''Bridge''
   \<and> iface_name (set_name nm m) = nm \<and> kind (set_name nm m) = kind m
   \<and> map_of (conf (set_name nm m)) ''DEVICE'' = Some (PStr nm)
   \<and> map_of (conf (set_name nm m)) ''TYPE'' = map_of (conf m) ''TYPE''"
proof -
  have dom: "(map_of iface_types x \<noteq> None) = (x \<in> {''ethernet'', ''bond'', ''bridge''})" for x
    by (auto simp add: iface_types_def)
  have 1: "iface_reachable n \<longrightarrow>
      kind n \<in> {''ethernet'', ''bond'', ''bridge''}
    \<and> map_of (conf n) ''TYPE'' = map_option PStr (map_of iface_types (kind n))
    \<and> map_of (conf n) ''DEVICE'' = Some (PStr (iface_name n))"
    using reachable_mirrored [of n] dom [of "kind n"] by auto
  have 2: "k \<notin> {''ethernet'', ''bond'', ''bridge''} \<longrightarrow> set_kind k m = Inl (InvalidKind k)"
    using dom [of k] by (auto simp add: set_kind_def)
  have 3: "k \<in> {''ethernet'', ''bond'', ''bridge''} \<longrightarrow>
        (\<exists>m'. set_kind k m = Inr m' \<and> kind m' = k \<and> iface_name m' = iface_name m
           \<and> map_of (conf m') ''TYPE'' = map_option PStr (map_of iface_types k)
           \<and> map_of (conf m') ''DEVICE'' = map_of (conf m) ''DEVICE'')"
    using dom [of k] by (auto simp add: set_kind_def map_of_setitem)
  have 4: "map_of iface_types ''ethernet'' = Some ''Ethernet''
   \<and> map_of iface_types ''bond'' = Some ''Bond''
   \<and> map_of iface_types ''bridge'' = Some ''Bridge''"
    by (simp add: iface_types_def)
  have 5: "iface_name (set_name nm m) = nm \<and> kind (set_name nm m) = kind m
   \<and> map_of (conf (set_name nm m)) ''DEVICE'' = Some (PStr nm)
   \<and> map_of (conf (set_name nm m)) ''TYPE'' = map_of (conf m) ''TYPE''"
    by (simp add: set_name_def map_of_setitem)
  from 1 2 3 4 5 show ?thesis by blast
qed

theorem kind_and_name_in_lock_step_witness:
  "iface_reachable (set_name ''eth1'' eth0)
   \<and> ''bond'' \<in> {''ethernet'', ''bond'', ''bridge''}
   \<and> ''wifi'' \<notin> {''ethernet'', ''bond'', ''bridge''}
   \<and> map_of (conf (set_name ''eth1'' eth0)) ''DEVICE'' = Some (PStr ''eth1'')
   \<and> map_of (conf (set_name ''eth1'' eth0)) ''TYPE'' = Some (PStr ''Ethernet'')
   \<and> set_kind ''wifi'' eth0 = Inl (InvalidKind ''wifi'')
   \<and> map_of (conf (projr (set_kind ''bond'' eth0))) ''TYPE'' = Some (PStr ''Bond'')"
proof -
  have r: "iface_reachable (set_name ''eth1'' eth0)"
    by (intro name_set created [OF new_eth0])
  have k: "''bond'' \<in> {''ethernet'', ''bond'', ''bridge''}"
    "''wifi'' \<notin> {''ethernet'', ''bond'', ''bridge''}"
    by simp_all
  note t = kind_and_name_in_lock_step [of "set_name ''eth1'' eth0" "''wifi''" eth0 "''eth1''"]
  note u = kind_and_name_in_lock_step [of "set_name ''eth1'' eth0" "''bond''" eth0 "''eth1''"]
  have e: "kind (set_name ''eth1'' eth0) = ''ethernet''"
    by (simp add: set_name_def eth0_fields)
  have "map_of (conf (set_name ''eth1'' eth0)) ''DEVICE'' = Some (PStr ''eth1'')"
    using t by blast
  moreover have "map_of (conf (set_name ''eth1'' eth0)) ''TYPE'' = Some (PStr ''Ethernet'')"
  proof -
    have "map_of (conf (set_name ''eth1'' eth0)) ''TYPE''
            = map_option PStr (map_of iface_types (kind (set_name ''eth1'' eth0)))"
      using t r by blast
    moreover have "map_of iface_types ''ethernet'' = Some ''Ethernet''"
      using t by blast
    ultimately show ?thesis by (simp add: e)
  qed
  moreover have "set_kind ''wifi'' eth0 = Inl (InvalidKind ''wifi'')"
    using t k by blast
  moreover have "map_of (conf (projr (set_kind ''bond'' eth0))) ''TYPE'' = Some (PStr ''Bond'')"
    using u k by auto
  ultimately show ?thesis using r k by blast
qed

theorem direct_write_breaks_type_counterexample:
  "new_net_interface ''eth0'' ''/etc/sysconfig'' ''ethernet'' = Inr eth0
   \<and> kind (iface_setitem ''TYPE'' (PStr ''Wireless'') eth0) = ''ethernet''
   \<and> map_of iface_types ''ethernet'' = Some ''Ethernet''
   \<and> map_of (conf (iface_setitem ''TYPE'' (PStr ''Wireless'') eth0)) ''TYPE''
        = Some (PStr ''Wireless'')"
  by (simp add: new_eth0 iface_setitem_sel map_of_setitem eth0_fields iface_types_def)

section \<open>Properties of the collection\<close>











section \<open>Properties of the subnet pass\<close>

lemma scan_subnets_append:
  "scan_subnets (xs @ ys) ic =
     (case scan_subnets xs ic of Inl e \<Rightarrow> Inl e | Inr ic' \<Rightarrow> scan_subnets ys ic')"
  by (induction xs arbitrary: ic) (simp_all split: sum.splits)

lemma scan_subnet_wf:
  assumes "wf_subnet s"
  shows "\<exists>ic'. scan_subnet s ic = Inr ic' \<and> iface_name ic' = iface_name ic"
  using assms
  by (auto simp add: wf_subnet_def known_type_def scan_subnet_def subnet_is_ipv6_def
      endswith_def iface_setitem_sel)

lemma scan_subnets_wf:
  "\<forall>s\<in>set xs. wf_subnet s \<Longrightarrow>
     \<exists>ic'. scan_subnets xs ic = Inr ic' \<and> iface_name ic' = iface_name ic"
proof (induction xs arbitrary: ic)
  case Nil
  show ?case by simp
next
  case (Cons s xs)
  from Cons.prems obtain ic1 where 1: "scan_subnet s ic = Inr ic1"
    and n1: "iface_name ic1 = iface_name ic"
    using scan_subnet_wf [of s ic] by auto
  from Cons.prems Cons.IH [of ic1] obtain ic2 where "scan_subnets xs ic1 = Inr ic2"
    and "iface_name ic2 = iface_name ic1"
    by auto
  with 1 n1 show ?case by simp
qed

lemma scan_subnet_unknown:
  "\<not> known_type s \<Longrightarrow>
     scan_subnet s ic = Inl (UnknownSubnetType (subnet_type s) (iface_name ic))"
  by (simp add: known_type_def scan_subnet_def)

lemma scan_subnets_unknown_fails:
  "s \<in> set xs \<Longrightarrow> \<not> known_type s \<Longrightarrow> isl (scan_subnets xs ic)"
proof (induction xs arbitrary: ic)
  case Nil
  then show ?case by simp
next
  case (Cons x xs)
  show ?case
  proof (cases "scan_subnet x ic")
    case (Inl e)
    then show ?thesis by simp
  next
    case (Inr ic1)
    with Cons.prems have "x \<noteq> s"
      by (auto simp add: scan_subnet_unknown)
    with Cons.prems have "s \<in> set xs" by simp
    from Cons.IH [OF this Cons.prems(2)] Inr show ?thesis by simp
  qed
qed

text \<open>
  C6. A subnet whose type is none of \<open>dhcp6\<close>, \<open>dhcp4\<close>, \<open>dhcp\<close> and \<open>static\<close> makes
  \<open>_render_subnets\<close> fail. When the subnets before it are accepted ones, the failure
  is \<open>UnknownSubnetType\<close> with the type of that subnet and the name of the interface, and
  it is the result of the pass whatever follows in the list; and a list that holds such
  a subnet anywhere is never rendered.
\<close>

theorem unknown_subnet_type_fails:
  "(\<not> known_type s \<and> (\<forall>t\<in>set pre. wf_subnet t) \<longrightarrow>
      render_subnets ic (pre @ s # post)
        = Inl (UnknownSubnetType (subnet_type s) (iface_name ic)))
   \<and> (s \<in> set subnets \<and> \<not> known_type s \<longrightarrow> isl (render_subnets ic subnets))"
proof (intro conjI impI)
  assume a: "\<not> known_type s \<and> (\<forall>t\<in>set pre. wf_subnet t)"
  let ?ic0 = "iface_setitem ''BOOTPROTO'' (PStr ''none'') ic"
  from a obtain ic1 where 1: "scan_subnets pre ?ic0 = Inr ic1"
    and n: "iface_name ic1 = iface_name ?ic0"
    using scan_subnets_wf [of pre ?ic0] by auto
  have "scan_subnets (pre @ s # post) ?ic0
          = Inl (UnknownSubnetType (subnet_type s) (iface_name ic))"
    using a 1 n by (simp add: scan_subnets_append scan_subnet_unknown iface_setitem_sel)
  then show "render_subnets ic (pre @ s # post)
        = Inl (UnknownSubnetType (subnet_type s) (iface_name ic))"
    by (simp add: render_subnets_def)
next
  assume "s \<in> set subnets \<and> \<not> known_type s"
  then have "isl (scan_subnets subnets (iface_setitem ''BOOTPROTO'' (PStr ''none'') ic))"
    by (intro scan_subnets_unknown_fails [of s]) simp_all
  then show "isl (render_subnets ic subnets)"
    by (auto simp add: render_subnets_def split: sum.splits)
qed

lemma example_subnet_wf:
  "wf_subnet (static_subnet a m rs)" "wf_subnet (static_subnet4 a m rs)"
  "wf_subnet (static_subnet6 a m rs)"
  by (simp_all add: wf_subnet_def known_type_def static_subnet_def static_subnet4_def
      static_subnet6_def)

theorem unknown_subnet_type_fails_witness:
  "\<not> known_type ((static_subnet ''10.0.0.6'' None [])\<lparr>subnet_type := Some ''foo''\<rparr>)
   \<and> list_all wf_subnet [static_subnet ''10.0.0.5'' (Some (PStr ''255.255.255.0'')) []]
   \<and> render_subnets eth0
        ([static_subnet ''10.0.0.5'' (Some (PStr ''255.255.255.0'')) []]
         @ (static_subnet ''10.0.0.6'' None [])\<lparr>subnet_type := Some ''foo''\<rparr> # [])
      = Inl (UnknownSubnetType (Some ''foo'') ''eth0'')
   \<and> (static_subnet ''10.0.0.6'' None [])\<lparr>subnet_type := Some ''foo''\<rparr>
        \<in> set [(static_subnet ''10.0.0.6'' None [])\<lparr>subnet_type := Some ''foo''\<rparr>]
   \<and> isl (render_subnets eth0 [(static_subnet ''10.0.0.6'' None [])\<lparr>subnet_type := Some ''foo''\<rparr>])"
proof -
  let ?foo = "(static_subnet ''10.0.0.6'' None [])\<lparr>subnet_type := Some ''foo''\<rparr>"
  let ?pre = "[static_subnet ''10.0.0.5'' (Some (PStr ''255.255.255.0'')) []]"
  have u: "\<not> known_type ?foo"
    by (simp add: known_type_def static_subnet_def)
  have w: "\<forall>t\<in>set ?pre. wf_subnet t"
    by (simp add: example_subnet_wf)
  have t: "subnet_type ?foo = Some ''foo''" by simp
  note th = unknown_subnet_type_fails [of ?foo ?pre eth0 "[]" "[?foo]"]
  have "render_subnets eth0 (?pre @ ?foo # []) = Inl (UnknownSubnetType (Some ''foo'') ''eth0'')"
    using th u w by (simp add: eth0_fields)
  moreover have "isl (render_subnets eth0 [?foo])"
    using th u by simp
  moreover have "list_all wf_subnet ?pre"
    using w unfolding list_all_iff .
  ultimately show ?thesis using u by simp
qed

subsection \<open>Static addresses\<close>

lemma digit_inj:
  "m < 10 \<Longrightarrow> n < 10 \<Longrightarrow> (''0123456789'' ! m = ''0123456789'' ! n) = (m = n)"
  by (rule nth_eq_iff_index_eq) simp_all

lemma str_nat_inj: "str_nat m = str_nat n \<Longrightarrow> m = n"
proof (induction m arbitrary: n rule: str_nat.induct)
  case (1 m)
  show ?case
  proof (cases "m < 10")
    case m: True
    show ?thesis
    proof (cases "n < 10")
      case True
      with m "1.prems" show ?thesis
        by (simp add: str_nat.simps [of m] str_nat.simps [of n] digit_inj)
    next
      case False
      with m "1.prems" show ?thesis
        using str_nat_not_Nil [of "n div 10"]
        by (simp add: str_nat.simps [of m] str_nat.simps [of n] Cons_eq_append_conv)
    qed
  next
    case m: False
    show ?thesis
    proof (cases "n < 10")
      case True
      with m "1.prems" show ?thesis
        using str_nat_not_Nil [of "m div 10"]
        by (simp add: str_nat.simps [of m] str_nat.simps [of n] append_eq_Cons_conv)
    next
      case False
      with m "1.prems" have d: "str_nat (m div 10) = str_nat (n div 10)"
        and r: "''0123456789'' ! (m mod 10) = ''0123456789'' ! (n mod 10)"
        by (simp_all add: str_nat.simps [of m] str_nat.simps [of n])
      from "1.IH" [OF m d] have "m div 10 = n div 10" .
      moreover from r have "m mod 10 = n mod 10"
        by (simp add: digit_inj)
      ultimately show ?thesis
        by (metis div_mult_mod_eq)
    qed
  qed
qed

lemma str_int_int: "str_int (int n) = str_nat n"
  by (simp add: str_int_def)

lemma index_suffix_inj: "index_suffix m = index_suffix n \<Longrightarrow> m = n"
  by (auto simp add: index_suffix_def dest: str_nat_inj split: if_splits)
     (metis str_nat_not_Nil)+

lemma py_join_snoc:
  "py_join sep (xs @ [x]) = (if xs = [] then x else py_join sep xs @ sep @ x)"
  by (induction sep xs rule: py_join.induct) simp_all

lemma assign_subnets_snoc:
  "assign_subnets (xs @ [s]) st =
     (case assign_subnets xs st of Inl e \<Rightarrow> Inl e | Inr st' \<Rightarrow> assign_subnet s st')"
  by (induction xs arbitrary: st) (simp_all split: sum.splits)

lemma wf_subnet_cases:
  "wf_subnet s \<Longrightarrow>
     (is_static4 s \<and> \<not> is_static6 s) \<or> (is_static6 s \<and> \<not> is_static4 s)
     \<or> (\<not> is_static4 s \<and> \<not> is_static6 s \<and> subnet_type s \<noteq> Some ''static'')"
  by (auto simp add: wf_subnet_def is_static4_def is_static6_def split: option.splits)

lemma assign_subnet_other:
  "wf_subnet s \<Longrightarrow> subnet_type s \<noteq> Some ''static'' \<Longrightarrow> assign_subnet s st = Inr st"
  by (cases st) (auto simp add: assign_subnet_def wf_subnet_def known_type_def)

lemma assign_subnet_static4:
  assumes "is_static4 s"
  shows "assign_subnet s (i4, i6, ic) =
           Inr (i4 + 1, i6,
                set_optional (''NETMASK'' @ (if i4 + 1 = 0 then [] else str_int (i4 + 1)))
                  (netmask s)
                  (iface_setitem (''IPADDR'' @ (if i4 + 1 = 0 then [] else str_int (i4 + 1)))
                     (PStr (the (address s))) ic))"
  using assms
  by (auto simp add: is_static4_def assign_subnet_def subnet_is_ipv6_def endswith_def
      split: option.splits)

lemma assign_subnet_static6:
  assumes "is_static6 s"
  shows "assign_subnet s (i4, i6, ic) =
           (if i6 + 1 = 0 then
              Inr (i4, i6 + 1, iface_setitem ''IPV6ADDR'' (PStr (subnet_cidr s)) ic)
            else if i6 + 1 = 1 then
              Inr (i4, i6 + 1, iface_setitem ''IPV6ADDR_SECONDARIES'' (PStr (subnet_cidr s)) ic)
            else
              (case getitem (conf ic) ''IPV6ADDR_SECONDARIES'' of
                 Inl e \<Rightarrow> Inl e
               | Inr (PStr old) \<Rightarrow>
                   Inr (i4, i6 + 1,
                        iface_setitem ''IPV6ADDR_SECONDARIES''
                          (PStr (old @ '' '' @ subnet_cidr s)) ic)
               | Inr _ \<Rightarrow> Inl TypeError))"
  using assms
  by (auto simp add: is_static6_def assign_subnet_def subnet_is_ipv6_def endswith_def
      subnet_cidr_def split: option.splits sum.splits pyval.splits)

lemma conf_set_optional:
  "map_of (conf (set_optional k vo ic)) =
     (case vo of None \<Rightarrow> map_of (conf ic) | Some v \<Rightarrow> (map_of (conf ic))(k \<mapsto> v))"
  by (simp add: set_optional_def iface_setitem_sel map_of_setitem split: option.splits)

lemma key_simps:
  "(''IPADDR'' @ x = ''NETMASK'' @ y) = False"
  "(''NETMASK'' @ y = ''IPADDR'' @ x) = False"
  "(''IPV6ADDR'' = ''IPADDR'' @ x) = False"
  "(''IPV6ADDR'' = ''NETMASK'' @ x) = False"
  "(''IPV6ADDR_SECONDARIES'' = ''IPADDR'' @ x) = False"
  "(''IPV6ADDR_SECONDARIES'' = ''NETMASK'' @ x) = False"
  "(''IPADDR'' @ x = ''IPV6ADDR'') = False"
  "(''NETMASK'' @ x = ''IPV6ADDR'') = False"
  "(''IPADDR'' @ x = ''IPV6ADDR_SECONDARIES'') = False"
  "(''NETMASK'' @ x = ''IPV6ADDR_SECONDARIES'') = False"
  "(''IPADDR'' @ x = ''IPADDR'' @ y) = (x = y)"
  "(''NETMASK'' @ x = ''NETMASK'' @ y) = (x = y)"
  by simp_all

lemma static4_step:
  assumes s: "is_static4 s"
    and ih: "\<forall>n<length f4.
               map_of (conf ic) (''IPADDR'' @ index_suffix n) = Some (PStr (the (address (f4 ! n))))
             \<and> (\<forall>m. netmask (f4 ! n) = Some m \<longrightarrow>
                   map_of (conf ic) (''NETMASK'' @ index_suffix n) = Some m)"
  defines "ic' \<equiv> set_optional (''NETMASK'' @ index_suffix (length f4)) (netmask s)
                  (iface_setitem (''IPADDR'' @ index_suffix (length f4))
                     (PStr (the (address s))) ic)"
  shows "\<forall>n<length (f4 @ [s]).
               map_of (conf ic') (''IPADDR'' @ index_suffix n)
                 = Some (PStr (the (address ((f4 @ [s]) ! n))))
             \<and> (\<forall>m. netmask ((f4 @ [s]) ! n) = Some m \<longrightarrow>
                   map_of (conf ic') (''NETMASK'' @ index_suffix n) = Some m)"
    and "map_of (conf ic') ''IPV6ADDR'' = map_of (conf ic) ''IPV6ADDR''"
    and "map_of (conf ic') ''IPV6ADDR_SECONDARIES'' = map_of (conf ic) ''IPV6ADDR_SECONDARIES''"
proof -
  show "map_of (conf ic') ''IPV6ADDR'' = map_of (conf ic) ''IPV6ADDR''"
    by (simp add: ic'_def conf_set_optional iface_setitem_sel map_of_setitem key_simps
        split: option.splits)
  show "map_of (conf ic') ''IPV6ADDR_SECONDARIES'' = map_of (conf ic) ''IPV6ADDR_SECONDARIES''"
    by (simp add: ic'_def conf_set_optional iface_setitem_sel map_of_setitem key_simps
        split: option.splits)
  show "\<forall>n<length (f4 @ [s]).
               map_of (conf ic') (''IPADDR'' @ index_suffix n)
                 = Some (PStr (the (address ((f4 @ [s]) ! n))))
             \<and> (\<forall>m. netmask ((f4 @ [s]) ! n) = Some m \<longrightarrow>
                   map_of (conf ic') (''NETMASK'' @ index_suffix n) = Some m)"
  proof (intro allI impI)
    fix n assume n: "n < length (f4 @ [s])"
    show "map_of (conf ic') (''IPADDR'' @ index_suffix n)
                 = Some (PStr (the (address ((f4 @ [s]) ! n))))
             \<and> (\<forall>m. netmask ((f4 @ [s]) ! n) = Some m \<longrightarrow>
                   map_of (conf ic') (''NETMASK'' @ index_suffix n) = Some m)"
    proof (cases "n = length f4")
      case True
      then show ?thesis
        by (simp add: ic'_def conf_set_optional iface_setitem_sel map_of_setitem key_simps
            split: option.splits)
    next
      case False
      with n have lt: "n < length f4" by simp
      from False have ne: "index_suffix n \<noteq> index_suffix (length f4)"
        using index_suffix_inj by blast
      from ih lt have
        a: "map_of (conf ic) (''IPADDR'' @ index_suffix n) = Some (PStr (the (address (f4 ! n))))"
        and b: "\<forall>m. netmask (f4 ! n) = Some m \<longrightarrow>
                   map_of (conf ic) (''NETMASK'' @ index_suffix n) = Some m"
        by simp_all
      from lt a b ne show ?thesis
        by (simp add: ic'_def conf_set_optional iface_setitem_sel map_of_setitem key_simps
            nth_append split: option.splits)
    qed
  qed
qed

lemma assign_subnets_invariant:
  assumes "\<forall>s\<in>set xs. wf_subnet s"
  shows "\<exists>ic'. assign_subnets xs (- 1, - 1, ic0)
            = Inr (int (length (filter is_static4 xs)) - 1,
                   int (length (filter is_static6 xs)) - 1, ic')
     \<and> (\<forall>n<length (filter is_static4 xs).
           map_of (conf ic') (''IPADDR'' @ index_suffix n)
             = Some (PStr (the (address (filter is_static4 xs ! n))))
         \<and> (\<forall>m. netmask (filter is_static4 xs ! n) = Some m \<longrightarrow>
               map_of (conf ic') (''NETMASK'' @ index_suffix n) = Some m))
     \<and> (filter is_static6 xs \<noteq> [] \<longrightarrow>
           map_of (conf ic') ''IPV6ADDR''
             = Some (PStr (subnet_cidr (hd (filter is_static6 xs)))))
     \<and> (2 \<le> length (filter is_static6 xs) \<longrightarrow>
           map_of (conf ic') ''IPV6ADDR_SECONDARIES''
             = Some (PStr (py_join '' '' (map subnet_cidr (tl (filter is_static6 xs))))))"
  using assms
proof (induction xs rule: rev_induct)
  case Nil
  show ?case by simp
next
  case (snoc s xs)
  define f4 where "f4 = filter is_static4 xs"
  define f6 where "f6 = filter is_static6 xs"
  from snoc.prems have wfs: "wf_subnet s" and wfxs: "\<forall>s\<in>set xs. wf_subnet s"
    by simp_all
  from snoc.IH [OF wfxs] obtain ic1 where
    run: "assign_subnets xs (- 1, - 1, ic0)
            = Inr (int (length f4) - 1, int (length f6) - 1, ic1)"
    and v4: "\<forall>n<length f4.
           map_of (conf ic1) (''IPADDR'' @ index_suffix n) = Some (PStr (the (address (f4 ! n))))
         \<and> (\<forall>m. netmask (f4 ! n) = Some m \<longrightarrow>
               map_of (conf ic1) (''NETMASK'' @ index_suffix n) = Some m)"
    and v6: "f6 \<noteq> [] \<longrightarrow> map_of (conf ic1) ''IPV6ADDR'' = Some (PStr (subnet_cidr (hd f6)))"
    and v6s: "2 \<le> length f6 \<longrightarrow>
           map_of (conf ic1) ''IPV6ADDR_SECONDARIES''
             = Some (PStr (py_join '' '' (map subnet_cidr (tl f6))))"
    unfolding f4_def f6_def by blast
  from wf_subnet_cases [OF wfs]
  consider (static4) "is_static4 s" "\<not> is_static6 s"
    | (static6) "is_static6 s" "\<not> is_static4 s"
    | (other) "\<not> is_static4 s" "\<not> is_static6 s" "subnet_type s \<noteq> Some ''static''"
    by blast
  then show ?case
  proof cases
    case other
    have "assign_subnets (xs @ [s]) (- 1, - 1, ic0)
            = Inr (int (length f4) - 1, int (length f6) - 1, ic1)"
      using run by (simp add: assign_subnets_snoc assign_subnet_other [OF wfs other(3)])
    with v4 v6 v6s other(1,2) show ?thesis
      by (auto simp add: f4_def f6_def)
  next
    case static4
    define ic' where "ic' = set_optional (''NETMASK'' @ index_suffix (length f4)) (netmask s)
                  (iface_setitem (''IPADDR'' @ index_suffix (length f4))
                     (PStr (the (address s))) ic1)"
    have step: "assign_subnets (xs @ [s]) (- 1, - 1, ic0)
            = Inr (int (length (f4 @ [s])) - 1, int (length f6) - 1, ic')"
      using run
      by (simp add: assign_subnets_snoc assign_subnet_static4 [OF static4(1)] ic'_def
          index_suffix_def str_int_int)
    note st = static4_step [OF static4(1) v4, folded ic'_def]
    have fl: "filter is_static4 (xs @ [s]) = f4 @ [s]" "filter is_static6 (xs @ [s]) = f6"
      using static4 by (simp_all add: f4_def f6_def)
    show ?thesis
      unfolding fl using step st v6 v6s by auto
  next
    case static6
    have fl: "filter is_static4 (xs @ [s]) = f4" "filter is_static6 (xs @ [s]) = f6 @ [s]"
      using static6 by (simp_all add: f4_def f6_def)
    consider (first) "f6 = []" | (second) "length f6 = 1" | (later) "2 \<le> length f6"
      by (cases f6) (auto simp add: Suc_le_eq)
    then show ?thesis
    proof cases
      case first
      have step: "assign_subnets (xs @ [s]) (- 1, - 1, ic0)
            = Inr (int (length f4) - 1, int (length (f6 @ [s])) - 1,
                   iface_setitem ''IPV6ADDR'' (PStr (subnet_cidr s)) ic1)"
        using run first
        by (simp add: assign_subnets_snoc assign_subnet_static6 [OF static6(1)])
      show ?thesis
        unfolding fl using step v4 first
        by (auto simp add: iface_setitem_sel map_of_setitem)
    next
      case second
      then obtain t where f6: "f6 = [t]"
        by (cases f6) auto
      have step: "assign_subnets (xs @ [s]) (- 1, - 1, ic0)
            = Inr (int (length f4) - 1, int (length (f6 @ [s])) - 1,
                   iface_setitem ''IPV6ADDR_SECONDARIES'' (PStr (subnet_cidr s)) ic1)"
        using run f6
        by (simp add: assign_subnets_snoc assign_subnet_static6 [OF static6(1)])
      show ?thesis
        unfolding fl using step v4 v6 f6
        by (auto simp add: iface_setitem_sel map_of_setitem)
    next
      case later
      then have ne: "f6 \<noteq> []" "tl f6 \<noteq> []"
        by (cases f6; cases "tl f6"; auto)+
      let ?old = "py_join '' '' (map subnet_cidr (tl f6))"
      from v6s later have old: "getitem (conf ic1) ''IPV6ADDR_SECONDARIES'' = Inr (PStr ?old)"
        by (simp add: getitem_def)
      have step: "assign_subnets (xs @ [s]) (- 1, - 1, ic0)
            = Inr (int (length f4) - 1, int (length (f6 @ [s])) - 1,
                   iface_setitem ''IPV6ADDR_SECONDARIES''
                     (PStr (?old @ '' '' @ subnet_cidr s)) ic1)"
        using run later old ne
        by (simp add: assign_subnets_snoc assign_subnet_static6 [OF static6(1)])
      have join: "py_join '' '' (map subnet_cidr (tl (f6 @ [s]))) = ?old @ '' '' @ subnet_cidr s"
        using ne by (simp add: py_join_snoc)
      show ?thesis
        unfolding fl using step v4 v6 ne join
        by (auto simp add: iface_setitem_sel map_of_setitem)
    qed
  qed
qed

text \<open>
  C3. For a list of accepted subnets \<open>_render_subnets\<close> succeeds, and in the dictionary
  of the interface it returns: the \<open>n\<close>-th static IPv4 subnet, counted from 0 among the
  static IPv4 subnets only, has its address under \<open>IPADDR\<close> (for \<open>n = 0\<close>) or \<open>IPADDR<n>\<close>
  and, when it has a netmask, the netmask under \<open>NETMASK\<close> or \<open>NETMASK<n>\<close>; the first
  static IPv6 subnet has its text under \<open>IPV6ADDR\<close>; when there are two or more,
  \<open>IPV6ADDR_SECONDARIES\<close> holds the texts of the second and the later ones, in order,
  separated by one space. The text of a static IPv6 subnet is \<open>address/netmask\<close>, and
  the bare address when it has no netmask. The two families are counted separately:
  the subnets of one family do not move the indices of the other.
\<close>

theorem static_addresses_assigned:
  assumes "\<forall>s\<in>set subnets. wf_subnet s"
  shows "(\<exists>ic'. render_subnets ic subnets = Inr ic'
     \<and> (\<forall>n<length (filter is_static4 subnets).
           map_of (conf ic') (''IPADDR'' @ index_suffix n)
             = Some (PStr (the (address (filter is_static4 subnets ! n))))
         \<and> (\<forall>m. netmask (filter is_static4 subnets ! n) = Some m \<longrightarrow>
               map_of (conf ic') (''NETMASK'' @ index_suffix n) = Some m))
     \<and> (filter is_static6 subnets \<noteq> [] \<longrightarrow>
           map_of (conf ic') ''IPV6ADDR''
             = Some (PStr (subnet_cidr (hd (filter is_static6 subnets)))))
     \<and> (2 \<le> length (filter is_static6 subnets) \<longrightarrow>
           map_of (conf ic') ''IPV6ADDR_SECONDARIES''
             = Some (PStr (py_join '' '' (map subnet_cidr (tl (filter is_static6 subnets)))))))
   \<and> index_suffix 0 = [] \<and> (0 < k \<longrightarrow> index_suffix k = str_nat k)
   \<and> (address s = Some a \<and> netmask s = None \<longrightarrow> subnet_cidr s = a)
   \<and> (address s = Some a \<and> netmask s = Some m \<and> py_str m \<noteq> [] \<longrightarrow>
        subnet_cidr s = a @ ''/'' @ py_str m)"
proof -
  from assms obtain ic1 where
    scan: "scan_subnets subnets (iface_setitem ''BOOTPROTO'' (PStr ''none'') ic) = Inr ic1"
    using scan_subnets_wf [of subnets "iface_setitem ''BOOTPROTO'' (PStr ''none'') ic"]
    by blast
  from assign_subnets_invariant [OF assms, of ic1] obtain ic' where
    run: "assign_subnets subnets (- 1, - 1, ic1)
            = Inr (int (length (filter is_static4 subnets)) - 1,
                   int (length (filter is_static6 subnets)) - 1, ic')"
    and props: "(\<forall>n<length (filter is_static4 subnets).
           map_of (conf ic') (''IPADDR'' @ index_suffix n)
             = Some (PStr (the (address (filter is_static4 subnets ! n))))
         \<and> (\<forall>m. netmask (filter is_static4 subnets ! n) = Some m \<longrightarrow>
               map_of (conf ic') (''NETMASK'' @ index_suffix n) = Some m))
     \<and> (filter is_static6 subnets \<noteq> [] \<longrightarrow>
           map_of (conf ic') ''IPV6ADDR''
             = Some (PStr (subnet_cidr (hd (filter is_static6 subnets)))))
     \<and> (2 \<le> length (filter is_static6 subnets) \<longrightarrow>
           map_of (conf ic') ''IPV6ADDR_SECONDARIES''
             = Some (PStr (py_join '' '' (map subnet_cidr (tl (filter is_static6 subnets))))))"
    by blast
  have "render_subnets ic subnets = Inr ic'"
    using scan run by (simp add: render_subnets_def)
  with props have first: "\<exists>ic'. render_subnets ic subnets = Inr ic'
     \<and> (\<forall>n<length (filter is_static4 subnets).
           map_of (conf ic') (''IPADDR'' @ index_suffix n)
             = Some (PStr (the (address (filter is_static4 subnets ! n))))
         \<and> (\<forall>m. netmask (filter is_static4 subnets ! n) = Some m \<longrightarrow>
               map_of (conf ic') (''NETMASK'' @ index_suffix n) = Some m))
     \<and> (filter is_static6 subnets \<noteq> [] \<longrightarrow>
           map_of (conf ic') ''IPV6ADDR''
             = Some (PStr (subnet_cidr (hd (filter is_static6 subnets)))))
     \<and> (2 \<le> length (filter is_static6 subnets) \<longrightarrow>
           map_of (conf ic') ''IPV6ADDR_SECONDARIES''
             = Some (PStr (py_join '' '' (map subnet_cidr (tl (filter is_static6 subnets))))))"
    by blast
  have rest: "index_suffix 0 = [] \<and> (0 < k \<longrightarrow> index_suffix k = str_nat k)
   \<and> (address s = Some a \<and> netmask s = None \<longrightarrow> subnet_cidr s = a)
   \<and> (address s = Some a \<and> netmask s = Some m \<and> py_str m \<noteq> [] \<longrightarrow>
        subnet_cidr s = a @ ''/'' @ py_str m)"
    by (simp add: index_suffix_def subnet_cidr_def ipv6_cidr_def)
  from first rest show ?thesis by blast
qed

theorem static_addresses_assigned_witness:
  "list_all wf_subnet
      [static_subnet ''10.0.0.5'' (Some (PStr ''255.255.255.0'')) [],
       static_subnet ''2001:db8::1'' (Some (PInt 64)) [],
       static_subnet ''10.0.0.6'' (Some (PStr ''255.255.255.0'')) [],
       static_subnet ''2001:db8::2'' None [],
       static_subnet ''2001:db8::3'' (Some (PInt 64)) []]
   \<and> (\<exists>ic'. render_subnets eth0
               [static_subnet ''10.0.0.5'' (Some (PStr ''255.255.255.0'')) [],
                static_subnet ''2001:db8::1'' (Some (PInt 64)) [],
                static_subnet ''10.0.0.6'' (Some (PStr ''255.255.255.0'')) [],
                static_subnet ''2001:db8::2'' None [],
                static_subnet ''2001:db8::3'' (Some (PInt 64)) []] = Inr ic'
        \<and> map_of (conf ic') ''IPADDR'' = Some (PStr ''10.0.0.5'')
        \<and> map_of (conf ic') ''NETMASK'' = Some (PStr ''255.255.255.0'')
        \<and> map_of (conf ic') ''IPADDR1'' = Some (PStr ''10.0.0.6'')
        \<and> map_of (conf ic') ''NETMASK1'' = Some (PStr ''255.255.255.0'')
        \<and> map_of (conf ic') ''IPV6ADDR'' = Some (PStr ''2001:db8::1/64'')
        \<and> map_of (conf ic') ''IPV6ADDR_SECONDARIES''
             = Some (PStr ''2001:db8::2 2001:db8::3/64''))"
proof -
  let ?L = "[static_subnet ''10.0.0.5'' (Some (PStr ''255.255.255.0'')) [],
               static_subnet ''2001:db8::1'' (Some (PInt 64)) [],
               static_subnet ''10.0.0.6'' (Some (PStr ''255.255.255.0'')) [],
               static_subnet ''2001:db8::2'' None [],
               static_subnet ''2001:db8::3'' (Some (PInt 64)) []]"
  have wf: "\<forall>s\<in>set ?L. wf_subnet s"
    by (simp add: example_subnet_wf)
  have f4: "filter is_static4 ?L
              = [static_subnet ''10.0.0.5'' (Some (PStr ''255.255.255.0'')) [],
                 static_subnet ''10.0.0.6'' (Some (PStr ''255.255.255.0'')) []]"
    by (simp add: is_static4_def static_subnet_def)
  have f6: "filter is_static6 ?L
              = [static_subnet ''2001:db8::1'' (Some (PInt 64)) [],
                 static_subnet ''2001:db8::2'' None [],
                 static_subnet ''2001:db8::3'' (Some (PInt 64)) []]"
    by (simp add: is_static6_def static_subnet_def)
  have sfx: "index_suffix 0 = []" "index_suffix (Suc 0) = ''1''"
    by (simp_all add: index_suffix_def str_nat.simps)
  have cidr: "subnet_cidr (static_subnet ''2001:db8::1'' (Some (PInt 64)) []) = ''2001:db8::1/64''"
    "subnet_cidr (static_subnet ''2001:db8::2'' None []) = ''2001:db8::2''"
    "subnet_cidr (static_subnet ''2001:db8::3'' (Some (PInt 64)) []) = ''2001:db8::3/64''"
    by (simp_all add: subnet_cidr_def ipv6_cidr_def static_subnet_def str_int_def str_nat.simps)
  have fields: "address (static_subnet a m rs) = Some a" "netmask (static_subnet a m rs) = m"
    for a m rs
    by (simp_all add: static_subnet_def)
  from static_addresses_assigned [OF wf, of eth0] obtain ic' where
    r: "render_subnets eth0 ?L = Inr ic'"
    and p4: "\<forall>n<length (filter is_static4 ?L).
           map_of (conf ic') (''IPADDR'' @ index_suffix n)
             = Some (PStr (the (address (filter is_static4 ?L ! n))))
         \<and> (\<forall>m. netmask (filter is_static4 ?L ! n) = Some m \<longrightarrow>
               map_of (conf ic') (''NETMASK'' @ index_suffix n) = Some m)"
    and p6: "filter is_static6 ?L \<noteq> [] \<longrightarrow>
           map_of (conf ic') ''IPV6ADDR''
             = Some (PStr (subnet_cidr (hd (filter is_static6 ?L))))"
    and p6s: "2 \<le> length (filter is_static6 ?L) \<longrightarrow>
           map_of (conf ic') ''IPV6ADDR_SECONDARIES''
             = Some (PStr (py_join '' '' (map subnet_cidr (tl (filter is_static6 ?L)))))"
    by blast
  from p4 [unfolded f4, rule_format, of 0] have a0:
    "map_of (conf ic') ''IPADDR'' = Some (PStr ''10.0.0.5'')"
    "map_of (conf ic') ''NETMASK'' = Some (PStr ''255.255.255.0'')"
    by (simp_all add: sfx fields)
  from p4 [unfolded f4, rule_format, of 1] have a1:
    "map_of (conf ic') ''IPADDR1'' = Some (PStr ''10.0.0.6'')"
    "map_of (conf ic') ''NETMASK1'' = Some (PStr ''255.255.255.0'')"
    by (simp_all add: sfx fields)
  from p6 [unfolded f6] have b0: "map_of (conf ic') ''IPV6ADDR'' = Some (PStr ''2001:db8::1/64'')"
    by (simp add: cidr)
  from p6s [unfolded f6] have b1:
    "map_of (conf ic') ''IPV6ADDR_SECONDARIES'' = Some (PStr ''2001:db8::2 2001:db8::3/64'')"
    by (simp add: cidr)
  have wfl: "list_all wf_subnet ?L"
    using wf unfolding list_all_iff .
  from wfl r a0 a1 b0 b1 show ?thesis by blast
qed

section \<open>Properties of the route table\<close>

lemma str_remove_no_A: "CHR ''A'' \<notin> set s \<Longrightarrow> str_remove ''ADDRESS'' s = s"
proof (induction s)
  case Nil
  show ?case by (simp add: str_remove.simps)
next
  case (Cons c s)
  then have c: "c \<noteq> CHR ''A''" and ih: "str_remove ''ADDRESS'' s = s"
    by auto
  have "take (length ''ADDRESS'') (c # s) \<noteq> ''ADDRESS''"
    using c by simp
  then have "str_remove ''ADDRESS'' (c # s) = c # str_remove ''ADDRESS'' s"
    by (subst str_remove.simps) (simp only: list.sel if_False simp_thms list.distinct)
  with ih show ?case by simp
qed

lemma digits_no_A:
  assumes "is_digits d"
  shows "CHR ''A'' \<notin> set d"
proof
  assume "CHR ''A'' \<in> set d"
  with assms have "CHR ''A'' \<in> set ''0123456789''"
    unfolding is_digits_def list_all_iff by blast
  then show False by simp
qed

lemma address_key_split: "is_address_key k \<Longrightarrow> k = ''ADDRESS'' @ drop 7 k"
  by (metis append_take_drop_id is_address_key_def)

lemma str_remove_address_key:
  assumes "is_address_key k"
  shows "str_remove ''ADDRESS'' k = drop 7 k"
proof -
  from assms have k: "take 7 k = ''ADDRESS''" and d: "is_digits (drop 7 k)"
    by (simp_all add: is_address_key_def)
  from k have "k \<noteq> []" by auto
  with k have "str_remove ''ADDRESS'' k = str_remove ''ADDRESS'' (drop 7 k)"
    by (subst str_remove.simps) (simp add: eval_nat_numeral)
  with d show ?thesis
    by (simp add: str_remove_no_A digits_no_A)
qed

lemma contains_address_key: "is_address_key k \<Longrightarrow> contains ''ADDRESS'' k"
  by (cases k) (simp_all add: is_address_key_def eval_nat_numeral)

lemma entry_field_address: "is_address_key k \<Longrightarrow> entry_field c ''ADDRESS'' k = py_str (the (map_of c k))"
  using address_key_split [of k] by (simp add: entry_field_def)

lemma route_entries_ipv4:
  assumes "\<forall>k\<in>set ks. contains ''ADDRESS'' k \<longrightarrow> is_address_key k"
    and "\<forall>k\<in>set ks. is_address_key k \<and> \<not> is_ipv6_route (entry_field c ''ADDRESS'' k) \<longrightarrow>
           map_of c (''NETMASK'' @ drop 7 k) \<noteq> None \<and> map_of c (''GATEWAY'' @ drop 7 k) \<noteq> None"
  shows "route_entries ''ipv4'' c ks (int n - 1) buf =
           Inr (buf @ concat (map (ipv4_lines c)
                  (enumerate n
                     (filter (\<lambda>k. \<not> is_ipv6_route (entry_field c ''ADDRESS'' k))
                        (filter is_address_key ks)))))"
  using assms
proof (induction ks arbitrary: n buf)
  case Nil
  show ?case by simp
next
  case (Cons k ks)
  have ih: "route_entries ''ipv4'' c ks (int m - 1) b =
           Inr (b @ concat (map (ipv4_lines c)
                  (enumerate m
                     (filter (\<lambda>k. \<not> is_ipv6_route (entry_field c ''ADDRESS'' k))
                        (filter is_address_key ks)))))" for m b
    using Cons.prems by (intro Cons.IH) simp_all
  show ?case
  proof (cases "is_address_key k")
    case False
    with Cons.prems(1) have "\<not> contains ''ADDRESS'' k" by auto
    with False show ?thesis
      using ih [of n buf] by simp
  next
    case True
    note ak = True
    have ct: "contains ''ADDRESS'' k" by (rule contains_address_key [OF ak])
    have rm: "str_remove ''ADDRESS'' k = drop 7 k" by (rule str_remove_address_key [OF ak])
    have ad: "py_str (the (map_of c k)) = entry_field c ''ADDRESS'' k"
      by (simp add: entry_field_address [OF ak])
    show ?thesis
    proof (cases "is_ipv6_route (entry_field c ''ADDRESS'' k)")
      case True
      with ak ct ad show ?thesis
        using ih [of n buf] by simp
    next
      case False
      with ak Cons.prems(2) obtain nm gw where
        nm: "map_of c (''NETMASK'' @ drop 7 k) = Some nm"
        and gw: "map_of c (''GATEWAY'' @ drop 7 k) = Some gw"
        by auto
      have i: "int n - 1 + 1 = int n" "int (Suc n) - 1 = int n" by simp_all
      have ef: "entry_field c ''NETMASK'' k = py_str nm" "entry_field c ''GATEWAY'' k = py_str gw"
        using nm gw by (simp_all add: entry_field_def)
      have "route_entries ''ipv4'' c (k # ks) (int n - 1) buf
              = route_entries ''ipv4'' c ks (int (Suc n) - 1) (buf @ ipv4_lines c (n, k))"
        using ak ct ad False nm gw
        by (simp add: rm getitem_def i str_int_int ipv4_lines_def ef del: of_nat_Suc)
      with ak False show ?thesis
        using ih [of "Suc n" "buf @ ipv4_lines c (n, k)"] by simp
    qed
  qed
qed

lemma route_entries_ipv6:
  assumes "\<forall>k\<in>set ks. contains ''ADDRESS'' k \<longrightarrow> is_address_key k"
    and "\<forall>k\<in>set ks. is_address_key k \<and> is_ipv6_route (entry_field c ''ADDRESS'' k) \<longrightarrow>
           map_of c (''NETMASK'' @ drop 7 k) \<noteq> None \<and> map_of c (''GATEWAY'' @ drop 7 k) \<noteq> None"
  shows "route_entries ''ipv6'' c ks reindex buf =
           Inr (buf @ concat (map (ipv6_line c)
                  (filter (\<lambda>k. is_ipv6_route (entry_field c ''ADDRESS'' k))
                     (filter is_address_key ks))))"
  using assms
proof (induction ks arbitrary: buf)
  case Nil
  show ?case by simp
next
  case (Cons k ks)
  have ih: "route_entries ''ipv6'' c ks reindex b =
           Inr (b @ concat (map (ipv6_line c)
                  (filter (\<lambda>k. is_ipv6_route (entry_field c ''ADDRESS'' k))
                     (filter is_address_key ks))))" for b
    using Cons.prems by (intro Cons.IH) simp_all
  show ?case
  proof (cases "is_address_key k")
    case False
    with Cons.prems(1) have "\<not> contains ''ADDRESS'' k" by auto
    with False show ?thesis
      using ih [of buf] by simp
  next
    case True
    note ak = True
    have ct: "contains ''ADDRESS'' k" by (rule contains_address_key [OF ak])
    have rm: "str_remove ''ADDRESS'' k = drop 7 k" by (rule str_remove_address_key [OF ak])
    have ad: "py_str (the (map_of c k)) = entry_field c ''ADDRESS'' k"
      by (simp add: entry_field_address [OF ak])
    show ?thesis
    proof (cases "is_ipv6_route (entry_field c ''ADDRESS'' k)")
      case False
      with ak ct ad show ?thesis
        using ih [of buf] by simp
    next
      case True
      with ak Cons.prems(2) obtain nm gw where
        nm: "map_of c (''NETMASK'' @ drop 7 k) = Some nm"
        and gw: "map_of c (''GATEWAY'' @ drop 7 k) = Some gw"
        by auto
      have ef: "entry_field c ''NETMASK'' k = py_str nm" "entry_field c ''GATEWAY'' k = py_str gw"
        using nm gw by (simp_all add: entry_field_def)
      have "route_entries ''ipv6'' c (k # ks) reindex buf
              = route_entries ''ipv6'' c ks reindex (buf @ ipv6_line c k)"
        using ak ct ad True nm gw
        by (simp add: rm getitem_def ipv6_line_def ef)
      with ak True show ?thesis
        using ih [of "buf @ ipv6_line c k"] by simp
    qed
  qed
qed

lemma route_entries_missing:
  assumes "\<forall>k\<in>set ks. contains ''ADDRESS'' k \<longrightarrow> is_address_key k"
    and "proto = ''ipv4'' \<or> proto = ''ipv6''"
    and "\<exists>k\<in>set ks. is_address_key k
           \<and> is_ipv6_route (entry_field c ''ADDRESS'' k) = (proto = ''ipv6'')
           \<and> (map_of c (''NETMASK'' @ drop 7 k) = None \<or> map_of c (''GATEWAY'' @ drop 7 k) = None)"
  shows "\<exists>key. route_entries proto c ks reindex buf = Inl (KeyError key)"
  using assms(1,3)
proof (induction ks arbitrary: reindex buf)
  case Nil
  then show ?case by simp
next
  case (Cons k ks)
  have ok: "\<forall>k\<in>set ks. contains ''ADDRESS'' k \<longrightarrow> is_address_key k"
    using Cons.prems(1) by simp
  let ?bad = "\<lambda>k. is_address_key k
           \<and> is_ipv6_route (entry_field c ''ADDRESS'' k) = (proto = ''ipv6'')
           \<and> (map_of c (''NETMASK'' @ drop 7 k) = None \<or> map_of c (''GATEWAY'' @ drop 7 k) = None)"
  have step: "(\<exists>key. route_entries proto c (k # ks) reindex buf = Inl (KeyError key))
            \<or> (\<not> ?bad k \<and> (\<exists>i b. route_entries proto c (k # ks) reindex buf
                                  = route_entries proto c ks i b))"
  proof (cases "is_address_key k")
    case False
    with Cons.prems(1) have "\<not> contains ''ADDRESS'' k" by auto
    with False show ?thesis by auto
  next
    case True
    note ak = True
    have ct: "contains ''ADDRESS'' k" by (rule contains_address_key [OF ak])
    have rm: "str_remove ''ADDRESS'' k = drop 7 k" by (rule str_remove_address_key [OF ak])
    have ad: "py_str (the (map_of c k)) = entry_field c ''ADDRESS'' k"
      by (simp add: entry_field_address [OF ak])
    show ?thesis
    proof (cases "is_ipv6_route (entry_field c ''ADDRESS'' k) = (proto = ''ipv6'')")
      case False
      with assms(2) ct ad have "route_entries proto c (k # ks) reindex buf
              = route_entries proto c ks reindex buf"
        by auto
      with False show ?thesis by blast
    next
      case fam: True
      show ?thesis
      proof (cases "map_of c (''NETMASK'' @ drop 7 k)")
        case None
        with assms(2) ct ad fam
        have "route_entries proto c (k # ks) reindex buf
                = Inl (KeyError (''NETMASK'' @ drop 7 k))"
          by (auto simp add: rm getitem_def)
        then show ?thesis by blast
      next
        case nm: (Some nm)
        show ?thesis
        proof (cases "map_of c (''GATEWAY'' @ drop 7 k)")
          case None
          with assms(2) ct ad fam nm
          have "route_entries proto c (k # ks) reindex buf
                  = Inl (KeyError (''GATEWAY'' @ drop 7 k))"
            by (auto simp add: rm getitem_def)
          then show ?thesis by blast
        next
          case gw: (Some gw)
          from assms(2) ct ad fam nm gw
          have "\<exists>i b. route_entries proto c (k # ks) reindex buf
                  = route_entries proto c ks i b"
            by (auto simp add: rm getitem_def)
          with nm gw show ?thesis by simp
        qed
      qed
    qed
  qed
  from step show ?case
  proof
    assume "\<exists>key. route_entries proto c (k # ks) reindex buf = Inl (KeyError key)"
    then show ?thesis .
  next
    assume r: "\<not> ?bad k \<and> (\<exists>i b. route_entries proto c (k # ks) reindex buf
                                  = route_entries proto c ks i b)"
    then obtain i b where e: "route_entries proto c (k # ks) reindex buf
                                  = route_entries proto c ks i b"
      by blast
    from r Cons.prems(2) have "\<exists>k\<in>set ks. ?bad k"
      by auto
    from Cons.IH [OF ok this, of i b] show ?thesis
      unfolding e .
  qed
qed

lemma route_to_string_complete:
  assumes "proto = ''ipv4'' \<or> proto = ''ipv6''"
    and "route_keys_ok (r_conf r)"
    and "\<forall>k\<in>set (family_keys (r_conf r) proto).
           map_of (r_conf r) (''NETMASK'' @ drop 7 k) \<noteq> None
         \<and> map_of (r_conf r) (''GATEWAY'' @ drop 7 k) \<noteq> None"
  shows "route_to_string r proto = Inr (serialize_spec (r_conf r) proto)"
proof -
  let ?c = "r_conf r"
  have ok: "\<forall>k\<in>set (sort (keys ?c)). contains ''ADDRESS'' k \<longrightarrow> is_address_key k"
    using assms(2) by (simp add: route_keys_ok_def list_all_iff)
  from assms(1) show ?thesis
  proof
    assume p: "proto = ''ipv4''"
    have have_fields: "\<forall>k\<in>set (sort (keys ?c)).
           is_address_key k \<and> \<not> is_ipv6_route (entry_field ?c ''ADDRESS'' k) \<longrightarrow>
           map_of ?c (''NETMASK'' @ drop 7 k) \<noteq> None \<and> map_of ?c (''GATEWAY'' @ drop 7 k) \<noteq> None"
      using assms(3) by (simp add: p family_keys_def)
    have "route_to_string r proto
            = route_entries ''ipv4'' ?c (sort (keys ?c)) (int 0 - 1)
                (make_header ''#'' @ (if ?c \<noteq> [] then nl else []))"
      by (simp add: route_to_string_def p)
    also have "\<dots> = Inr (serialize_spec ?c proto)"
      unfolding route_entries_ipv4 [OF ok have_fields]
      by (simp add: serialize_spec_def family_keys_def p)
    finally show ?thesis .
  next
    assume p: "proto = ''ipv6''"
    have have_fields: "\<forall>k\<in>set (sort (keys ?c)).
           is_address_key k \<and> is_ipv6_route (entry_field ?c ''ADDRESS'' k) \<longrightarrow>
           map_of ?c (''NETMASK'' @ drop 7 k) \<noteq> None \<and> map_of ?c (''GATEWAY'' @ drop 7 k) \<noteq> None"
      using assms(3) by (simp add: p family_keys_def)
    have "route_to_string r proto
            = route_entries ''ipv6'' ?c (sort (keys ?c)) (- 1)
                (make_header ''#'' @ (if ?c \<noteq> [] then nl else []))"
      by (simp add: route_to_string_def p)
    also have "\<dots> = Inr (serialize_spec ?c proto)"
      unfolding route_entries_ipv6 [OF ok have_fields]
      by (simp add: serialize_spec_def family_keys_def p)
    finally show ?thesis .
  qed
qed

lemma route_to_string_incomplete:
  assumes "proto = ''ipv4'' \<or> proto = ''ipv6''"
    and "route_keys_ok (r_conf r)"
    and "\<not> list_all
             (\<lambda>k. map_of (r_conf r) (''NETMASK'' @ drop 7 k) \<noteq> None
                \<and> map_of (r_conf r) (''GATEWAY'' @ drop 7 k) \<noteq> None)
             (family_keys (r_conf r) proto)"
  shows "\<exists>key. route_to_string r proto = Inl (KeyError key)"
proof -
  let ?c = "r_conf r"
  have ok: "\<forall>k\<in>set (sort (keys ?c)). contains ''ADDRESS'' k \<longrightarrow> is_address_key k"
    using assms(2) by (simp add: route_keys_ok_def list_all_iff)
  from assms(3) obtain k where k: "k \<in> set (family_keys ?c proto)"
    and m: "map_of ?c (''NETMASK'' @ drop 7 k) = None \<or> map_of ?c (''GATEWAY'' @ drop 7 k) = None"
    by (auto simp add: list_all_iff)
  from k have "k \<in> set (sort (keys ?c)) \<and> is_address_key k
        \<and> is_ipv6_route (entry_field ?c ''ADDRESS'' k) = (proto = ''ipv6'')"
    by (simp add: family_keys_def)
  with m have bad: "\<exists>k\<in>set (sort (keys ?c)). is_address_key k
           \<and> is_ipv6_route (entry_field ?c ''ADDRESS'' k) = (proto = ''ipv6'')
           \<and> (map_of ?c (''NETMASK'' @ drop 7 k) = None \<or> map_of ?c (''GATEWAY'' @ drop 7 k) = None)"
    by blast
  have p: "proto \<in> set [''ipv4'', ''ipv6'']"
    using assms(1) by auto
  have "route_to_string r proto
          = route_entries proto ?c (sort (keys ?c)) (- 1)
              (make_header ''#'' @ (if ?c \<noteq> [] then nl else []))"
    unfolding route_to_string_def using p by (simp only: if_False not_True_eq_False not_not)
  with route_entries_missing [OF ok assms(1) bad] show ?thesis
    by simp
qed

text \<open>
  C4 (as amended). On a route table whose keys that contain \<open>ADDRESS\<close> all match
  \<open>ADDRESS<n>\<close>, for the family \<open>ipv4\<close> or \<open>ipv6\<close>. When the entries of the requested
  family have their \<open>NETMASK<n>\<close> and \<open>GATEWAY<n>\<close>, \<open>Route.to_string\<close> returns the
  serialization as described: the header, then the \<open>ADDRESS<n>\<close> keys in ascending key
  order, an entry being IPv6 exactly when its address has a colon and the entries of
  the other family being skipped; for IPv4 the remaining entries are numbered anew from
  0 without gaps and written as \<open>ADDRESS<i>=\<close>, \<open>GATEWAY<i>=\<close>, \<open>NETMASK<i>=\<close> lines; for
  IPv6 each remaining entry is written as one line \<open><address>/<netmask> via <gateway>\<close>,
  with no numbering. When an entry of the requested family lacks its \<open>NETMASK<n>\<close> or
  its \<open>GATEWAY<n>\<close>, \<open>Route.to_string\<close> raises \<open>KeyError\<close> and returns no text.
\<close>

theorem route_to_string_serialization:
  assumes "proto = ''ipv4'' \<or> proto = ''ipv6''"
    and "route_keys_ok (r_conf r)"
  shows "(list_all
            (\<lambda>k. map_of (r_conf r) (''NETMASK'' @ drop 7 k) \<noteq> None
               \<and> map_of (r_conf r) (''GATEWAY'' @ drop 7 k) \<noteq> None)
            (family_keys (r_conf r) proto) \<longrightarrow>
          route_to_string r proto = Inr (serialize_spec (r_conf r) proto))
       \<and> (\<not> list_all
              (\<lambda>k. map_of (r_conf r) (''NETMASK'' @ drop 7 k) \<noteq> None
                 \<and> map_of (r_conf r) (''GATEWAY'' @ drop 7 k) \<noteq> None)
              (family_keys (r_conf r) proto) \<longrightarrow>
          (\<exists>key. route_to_string r proto = Inl (KeyError key)))"
proof (rule conjI)
  show "list_all
            (\<lambda>k. map_of (r_conf r) (''NETMASK'' @ drop 7 k) \<noteq> None
               \<and> map_of (r_conf r) (''GATEWAY'' @ drop 7 k) \<noteq> None)
            (family_keys (r_conf r) proto) \<longrightarrow>
          route_to_string r proto = Inr (serialize_spec (r_conf r) proto)"
  proof
    assume "list_all
            (\<lambda>k. map_of (r_conf r) (''NETMASK'' @ drop 7 k) \<noteq> None
               \<and> map_of (r_conf r) (''GATEWAY'' @ drop 7 k) \<noteq> None)
            (family_keys (r_conf r) proto)"
    then have "\<forall>k\<in>set (family_keys (r_conf r) proto).
           map_of (r_conf r) (''NETMASK'' @ drop 7 k) \<noteq> None
         \<and> map_of (r_conf r) (''GATEWAY'' @ drop 7 k) \<noteq> None"
      unfolding list_all_iff .
    with assms show "route_to_string r proto = Inr (serialize_spec (r_conf r) proto)"
      by (rule route_to_string_complete)
  qed
  show "\<not> list_all
              (\<lambda>k. map_of (r_conf r) (''NETMASK'' @ drop 7 k) \<noteq> None
                 \<and> map_of (r_conf r) (''GATEWAY'' @ drop 7 k) \<noteq> None)
              (family_keys (r_conf r) proto) \<longrightarrow>
          (\<exists>key. route_to_string r proto = Inl (KeyError key))"
  proof
    assume "\<not> list_all
              (\<lambda>k. map_of (r_conf r) (''NETMASK'' @ drop 7 k) \<noteq> None
                 \<and> map_of (r_conf r) (''GATEWAY'' @ drop 7 k) \<noteq> None)
              (family_keys (r_conf r) proto)"
    with assms show "\<exists>key. route_to_string r proto = Inl (KeyError key)"
      by (rule route_to_string_incomplete)
  qed
qed

theorem route_to_string_serialization_witness:
  "route_keys_ok (r_conf (eth0_routes\<lparr>r_conf := mixed_routes\<rparr>))
   \<and> list_all
        (\<lambda>k. map_of (r_conf (eth0_routes\<lparr>r_conf := mixed_routes\<rparr>)) (''NETMASK'' @ drop 7 k) \<noteq> None
           \<and> map_of (r_conf (eth0_routes\<lparr>r_conf := mixed_routes\<rparr>)) (''GATEWAY'' @ drop 7 k) \<noteq> None)
        (family_keys (r_conf (eth0_routes\<lparr>r_conf := mixed_routes\<rparr>)) ''ipv4'')
   \<and> list_all
        (\<lambda>k. map_of (r_conf (eth0_routes\<lparr>r_conf := mixed_routes\<rparr>)) (''NETMASK'' @ drop 7 k) \<noteq> None
           \<and> map_of (r_conf (eth0_routes\<lparr>r_conf := mixed_routes\<rparr>)) (''GATEWAY'' @ drop 7 k) \<noteq> None)
        (family_keys (r_conf (eth0_routes\<lparr>r_conf := mixed_routes\<rparr>)) ''ipv6'')
   \<and> family_keys mixed_routes ''ipv4'' = [''ADDRESS2'', ''ADDRESS3'']
   \<and> family_keys mixed_routes ''ipv6'' = [''ADDRESS1'']
   \<and> route_to_string (eth0_routes\<lparr>r_conf := mixed_routes\<rparr>) ''ipv4''
       = Inr (make_header ''#'' @ nl
              @ ''ADDRESS0=10.1.0.0'' @ nl @ ''GATEWAY0=10.0.0.254'' @ nl
              @ ''NETMASK0=255.255.0.0'' @ nl
              @ ''ADDRESS1=10.2.0.0'' @ nl @ ''GATEWAY1=10.0.0.253'' @ nl
              @ ''NETMASK1=255.255.255.0'' @ nl)
   \<and> route_to_string (eth0_routes\<lparr>r_conf := mixed_routes\<rparr>) ''ipv6''
       = Inr (make_header ''#'' @ nl @ ''2001:db8:1::/64 via 2001:db8::1'' @ nl)
   \<and> route_keys_ok (r_conf eth0_no_netmask)
   \<and> family_keys (r_conf eth0_no_netmask) ''ipv4'' = [''ADDRESS1'']
   \<and> \<not> list_all
          (\<lambda>k. map_of (r_conf eth0_no_netmask) (''NETMASK'' @ drop 7 k) \<noteq> None
             \<and> map_of (r_conf eth0_no_netmask) (''GATEWAY'' @ drop 7 k) \<noteq> None)
          (family_keys (r_conf eth0_no_netmask) ''ipv4'')
   \<and> (\<exists>key. route_to_string eth0_no_netmask ''ipv4'' = Inl (KeyError key))"
proof -
  let ?r = "eth0_routes\<lparr>r_conf := mixed_routes\<rparr>"
  have ok: "route_keys_ok (r_conf ?r)"
    by code_simp
  have h4: "list_all
        (\<lambda>k. map_of (r_conf ?r) (''NETMASK'' @ drop 7 k) \<noteq> None
           \<and> map_of (r_conf ?r) (''GATEWAY'' @ drop 7 k) \<noteq> None)
        (family_keys (r_conf ?r) ''ipv4'')"
    by code_simp
  have h6: "list_all
        (\<lambda>k. map_of (r_conf ?r) (''NETMASK'' @ drop 7 k) \<noteq> None
           \<and> map_of (r_conf ?r) (''GATEWAY'' @ drop 7 k) \<noteq> None)
        (family_keys (r_conf ?r) ''ipv6'')"
    by code_simp
  have f: "family_keys mixed_routes ''ipv4'' = [''ADDRESS2'', ''ADDRESS3'']"
    "family_keys mixed_routes ''ipv6'' = [''ADDRESS1'']"
    by code_simp+
  have s4: "serialize_spec (r_conf ?r) ''ipv4''
       = make_header ''#'' @ nl
              @ ''ADDRESS0=10.1.0.0'' @ nl @ ''GATEWAY0=10.0.0.254'' @ nl
              @ ''NETMASK0=255.255.0.0'' @ nl
              @ ''ADDRESS1=10.2.0.0'' @ nl @ ''GATEWAY1=10.0.0.253'' @ nl
              @ ''NETMASK1=255.255.255.0'' @ nl"
    by code_simp
  have s6: "serialize_spec (r_conf ?r) ''ipv6''
       = make_header ''#'' @ nl @ ''2001:db8:1::/64 via 2001:db8::1'' @ nl"
    by code_simp
  have p4: "''ipv4'' = ''ipv4'' \<or> ''ipv4'' = ''ipv6''" and p6: "''ipv6'' = ''ipv4'' \<or> ''ipv6'' = ''ipv6''"
    by simp_all
  have r4: "route_to_string ?r ''ipv4'' = Inr (serialize_spec (r_conf ?r) ''ipv4'')"
    by (rule mp [OF conjunct1 [OF route_to_string_serialization [OF p4 ok]] h4])
  have r6: "route_to_string ?r ''ipv6'' = Inr (serialize_spec (r_conf ?r) ''ipv6'')"
    by (rule mp [OF conjunct1 [OF route_to_string_serialization [OF p6 ok]] h6])
  have ok2: "route_keys_ok (r_conf eth0_no_netmask)"
    by code_simp
  have f2: "family_keys (r_conf eth0_no_netmask) ''ipv4'' = [''ADDRESS1'']"
    by code_simp
  have n2: "\<not> list_all
          (\<lambda>k. map_of (r_conf eth0_no_netmask) (''NETMASK'' @ drop 7 k) \<noteq> None
             \<and> map_of (r_conf eth0_no_netmask) (''GATEWAY'' @ drop 7 k) \<noteq> None)
          (family_keys (r_conf eth0_no_netmask) ''ipv4'')"
    by code_simp
  have e2: "\<exists>key. route_to_string eth0_no_netmask ''ipv4'' = Inl (KeyError key)"
    by (rule mp [OF conjunct2 [OF route_to_string_serialization [OF p4 ok2]] n2])
  show ?thesis
    by (intro conjI ok h4 h6 f r4 [unfolded s4] r6 [unfolded s6] ok2 f2 n2 e2)
qed

theorem incomplete_route_entry_counterexample:
  "render_subnet_routes
      [static_subnet4 ''10.0.0.5'' (Some (PStr ''255.255.255.0'')) [host_route]]
      (eth0, eth0_routes)
     = Inr (eth0, eth0_no_netmask)
   \<and> r_conf eth0_no_netmask
       = [(''GATEWAY1'', PStr ''10.0.0.254''), (''ADDRESS1'', PStr ''10.1.0.0'')]
   \<and> route_to_string eth0_no_netmask ''ipv4'' = Inl (KeyError ''NETMASK1'')
   \<and> route_to_string (eth0_routes\<lparr>r_conf := odd_key_routes\<rparr>) ''ipv4''
       = Inr (make_header ''#'' @ nl
              @ ''ADDRESS0=10.1.0.0'' @ nl @ ''GATEWAY0=10.0.0.254'' @ nl
              @ ''NETMASK0=255.255.0.0'' @ nl)
   \<and> filter is_address_key (keys odd_key_routes) = []
   \<and> serialize_spec odd_key_routes ''ipv4'' = make_header ''#'' @ nl"
proof -
  have a: "render_subnet_routes
      [static_subnet4 ''10.0.0.5'' (Some (PStr ''255.255.255.0'')) [host_route]]
      (eth0, eth0_routes)
     = Inr (eth0, eth0_no_netmask)"
    by code_simp
  have b: "r_conf eth0_no_netmask
       = [(''GATEWAY1'', PStr ''10.0.0.254''), (''ADDRESS1'', PStr ''10.1.0.0'')]"
    by (simp add: eth0_no_netmask_def)
  have c: "route_to_string eth0_no_netmask ''ipv4'' = Inl (KeyError ''NETMASK1'')"
    by code_simp
  have d: "route_to_string (eth0_routes\<lparr>r_conf := odd_key_routes\<rparr>) ''ipv4''
       = Inr (make_header ''#'' @ nl
              @ ''ADDRESS0=10.1.0.0'' @ nl @ ''GATEWAY0=10.0.0.254'' @ nl
              @ ''NETMASK0=255.255.0.0'' @ nl)"
    by code_simp
  have e: "filter is_address_key (keys odd_key_routes) = []"
    by code_simp
  have f: "serialize_spec odd_key_routes ''ipv4'' = make_header ''#'' @ nl"
    by code_simp
  show ?thesis
    by (intro conjI a b c d e f)
qed

text \<open>The route pass builds tables of this kind only.\<close>

lemma contains_subset: "contains pat s \<Longrightarrow> set pat \<subseteq> set s"
proof (induction s)
  case Nil
  then show ?case by simp
next
  case (Cons c cs)
  from Cons.prems have "take (length pat) (c # cs) = pat \<or> contains pat cs"
    by simp
  then show ?case
  proof
    assume "take (length pat) (c # cs) = pat"
    then have "set pat = set (take (length pat) (c # cs))" by simp
    also have "\<dots> \<subseteq> set (c # cs)" by (rule set_take_subset)
    finally show ?thesis .
  next
    assume "contains pat cs"
    with Cons.IH show ?thesis by auto
  qed
qed

lemma is_digits_str_nat: "is_digits (str_nat n)"
  using str_nat_digits [of n] str_nat_not_Nil [of n]
  unfolding is_digits_def list_all_iff by blast

lemma address_key_str_int: "0 \<le> i \<Longrightarrow> is_address_key (''ADDRESS'' @ str_int i)"
  using is_digits_str_nat [of "nat i"] by (simp add: is_address_key_def str_int_def)

lemma no_D:
  assumes "0 \<le> i"
  shows "CHR ''D'' \<notin> set (''GATEWAY'' @ str_int i)" "CHR ''D'' \<notin> set (''NETMASK'' @ str_int i)"
proof -
  have d: "CHR ''D'' \<notin> set (str_int i)"
  proof
    assume "CHR ''D'' \<in> set (str_int i)"
    with assms have "CHR ''D'' \<in> set (str_nat (nat i))" by (simp add: str_int_def)
    with str_nat_digits [of "nat i"] have "CHR ''D'' \<in> set ''0123456789''" by blast
    then show False by simp
  qed
  show "CHR ''D'' \<notin> set (''GATEWAY'' @ str_int i)" using d by simp
  show "CHR ''D'' \<notin> set (''NETMASK'' @ str_int i)" using d by simp
qed

lemma not_contains_other_keys:
  assumes "0 \<le> i"
  shows "\<not> contains ''ADDRESS'' (''GATEWAY'' @ str_int i)"
    and "\<not> contains ''ADDRESS'' (''NETMASK'' @ str_int i)"
proof -
  have D: "CHR ''D'' \<in> set ''ADDRESS''" by simp
  show "\<not> contains ''ADDRESS'' (''GATEWAY'' @ str_int i)"
    using contains_subset [of "''ADDRESS''" "''GATEWAY'' @ str_int i"] D no_D(1) [OF assms]
    by blast
  show "\<not> contains ''ADDRESS'' (''NETMASK'' @ str_int i)"
    using contains_subset [of "''ADDRESS''" "''NETMASK'' @ str_int i"] D no_D(2) [OF assms]
    by blast
qed

lemma route_keys_ok_setitem:
  "route_keys_ok c \<Longrightarrow> contains ''ADDRESS'' k \<longrightarrow> is_address_key k \<Longrightarrow>
     route_keys_ok (setitem k v c)"
  unfolding route_keys_ok_def list_all_iff keys_def setitem_def
  by (auto simp add: dom_update)

lemma render_route_keys:
  assumes "render_route s r (ic, rc) = Inr (ic', rc')"
    and "route_keys_ok (r_conf rc)" and "0 \<le> last_idx rc"
  shows "route_keys_ok (r_conf rc') \<and> 0 \<le> last_idx rc'"
proof (cases "is_default_route r")
  case (Inl e)
  with assms(1) show ?thesis by (simp add: render_route_def)
next
  case (Inr b)
  show ?thesis
  proof (cases b)
    case True
    with Inr assms show ?thesis
      by (auto simp add: render_route_def split: if_splits option.splits)
  next
    case False
    let ?i = "last_idx rc"
    note nc = not_contains_other_keys [OF assms(3)]
    note ak = address_key_str_int [OF assms(3)]
    have g: "route_keys_ok (case r ''gateway'' of None \<Rightarrow> r_conf rc
               | Some v \<Rightarrow> setitem (''GATEWAY'' @ str_int ?i) v (r_conf rc))" (is "route_keys_ok ?g")
      using assms(2) nc(1) by (auto intro: route_keys_ok_setitem split: option.splits)
    then have n: "route_keys_ok (case r ''netmask'' of None \<Rightarrow> ?g
               | Some v \<Rightarrow> setitem (''NETMASK'' @ str_int ?i) v ?g)" (is "route_keys_ok ?n")
      using nc(2) by (auto intro: route_keys_ok_setitem split: option.splits)
    then have a: "route_keys_ok (case r ''network'' of None \<Rightarrow> ?n
               | Some v \<Rightarrow> setitem (''ADDRESS'' @ str_int ?i) v ?n)"
      using ak by (auto intro: route_keys_ok_setitem split: option.splits)
    from Inr False assms(1) have "rc' = rc\<lparr>last_idx := ?i + 1,
                    r_conf :=
                      copy_route_keys
                        [(''gateway'', ''GATEWAY'' @ str_int ?i),
                         (''netmask'', ''NETMASK'' @ str_int ?i),
                         (''network'', ''ADDRESS'' @ str_int ?i)]
                        r (r_conf rc)\<rparr>"
      by (simp add: render_route_def)
    with a assms(3) show ?thesis
      by (simp del: append.simps)
  qed
qed

lemma render_routes_keys:
  "render_routes s rs (ic, rc) = Inr (ic', rc') \<Longrightarrow> route_keys_ok (r_conf rc) \<Longrightarrow>
     0 \<le> last_idx rc \<Longrightarrow> route_keys_ok (r_conf rc') \<and> 0 \<le> last_idx rc'"
proof (induction rs arbitrary: ic rc)
  case Nil
  then show ?case by simp
next
  case (Cons r rs)
  from Cons.prems(1) obtain ic1 rc1 where 1: "render_route s r (ic, rc) = Inr (ic1, rc1)"
    and 2: "render_routes s rs (ic1, rc1) = Inr (ic', rc')"
    by (auto split: sum.splits)
  from render_route_keys [OF 1 Cons.prems(2,3)] Cons.IH [OF 2] show ?case
    by blast
qed

lemma render_subnet_routes_keys:
  "render_subnet_routes ss (ic, rc) = Inr (ic', rc') \<Longrightarrow> route_keys_ok (r_conf rc) \<Longrightarrow>
     0 \<le> last_idx rc \<Longrightarrow> route_keys_ok (r_conf rc') \<and> 0 \<le> last_idx rc'"
proof (induction ss arbitrary: ic rc)
  case Nil
  then show ?case by simp
next
  case (Cons s ss)
  from Cons.prems(1) obtain ic1 rc1 where
    1: "render_routes s (get_routes s) (ic, rc) = Inr (ic1, rc1)"
    and 2: "render_subnet_routes ss (ic1, rc1) = Inr (ic', rc')"
    by (auto split: sum.splits)
  from render_routes_keys [OF 1 Cons.prems(2,3)] Cons.IH [OF 2] show ?case
    by blast
qed

end
